theory Spec2Isabelle
  imports Main "HOL-Library.Sublist"
begin

section \<open>Effects: state passing with exceptions\<close>

text \<open>
  A Python call either returns a value or raises an exception, and it may change the
  world on the way. A computation is a function from the state before the call to the
  outcome and the state after it; \<open>Inl m\<close> is an exception (an instance of
  \<open>Exception\<close>) whose \<open>str\<close> is \<open>m\<close>, propagating to the caller.
\<close>

type_synonym ('s, 'a) io = "'s \<Rightarrow> (string + 'a) \<times> 's"

definition io_return :: "'a \<Rightarrow> ('s, 'a) io" where
  "io_return v s = (Inr v, s)"

definition io_raise :: "string \<Rightarrow> ('s, 'a) io" where
  "io_raise m s = (Inl m, s)"

definition io_bind :: "('s, 'a) io \<Rightarrow> ('a \<Rightarrow> ('s, 'b) io) \<Rightarrow> ('s, 'b) io" where
  "io_bind m f s = (case m s of (Inl e, s') \<Rightarrow> (Inl e, s') | (Inr v, s') \<Rightarrow> f v s')"

text \<open>\<open>try: m except Exception as e: h e\<close> (and the bare \<open>except:\<close>).\<close>

definition io_try :: "('s, 'a) io \<Rightarrow> (string \<Rightarrow> ('s, 'a) io) \<Rightarrow> ('s, 'a) io" where
  "io_try m h s = (case m s of (Inl e, s') \<Rightarrow> h e s' | (Inr v, s') \<Rightarrow> (Inr v, s'))"

section \<open>The local file system\<close>

text \<open>
  A path is the list of its components below the file-system root. A file-system
  entry is a regular file with its bytes, a regular file that cannot be opened
  (\<open>open\<close> raises an \<open>OSError\<close> with the given message), a directory with its
  named children in listing order, an entry whose status cannot be read (it lies in
  a directory that can be listed but not searched), or anything else (a socket, a
  dangling link).
\<close>

type_synonym path = "string list"

datatype node =
  File string | Unreadable string | Dir "(string \<times> node) list" | Denied | Other

fun lookup :: "node \<Rightarrow> path \<Rightarrow> node option" where
  "lookup n [] = Some n"
| "lookup (Dir cs) (c # p) = (case map_of cs c of None \<Rightarrow> None | Some n \<Rightarrow> lookup n p)"
| "lookup _ (c # p) = None"

text \<open>Whether an entry is a regular file.\<close>

fun regular :: "node \<Rightarrow> bool" where
  "regular (File _) = True"
| "regular (Unreadable _) = True"
| "regular _ = False"

text \<open>
  \<open>Path.is_file()\<close>: it reads the status of the entry, and raises \<open>PermissionError\<close>
  when that is denied.
\<close>

fun is_file :: "node \<Rightarrow> string + bool" where
  "is_file Denied = Inl ''PermissionError''"
| "is_file n = Inr (regular n)"

text \<open>\<open>os.path.exists\<close> of what a path leads to: false when the status cannot be read.\<close>

fun exists_node :: "node option \<Rightarrow> bool" where
  "exists_node None = False"
| "exists_node (Some Denied) = False"
| "exists_node (Some n) = True"

text \<open>
  \<open>Path.rglob('*')\<close>: every entry strictly below a directory. pathlib lists the
  children of the directory, then does the same for each sub-directory in turn.
\<close>

fun rglob_node :: "path \<Rightarrow> node \<Rightarrow> (path \<times> node) list" where
  "rglob_node p (Dir cs) =
     map (\<lambda>c. (p @ [fst c], snd c)) cs @ concat (map (\<lambda>c. rglob_node (p @ [fst c]) (snd c)) cs)"
| "rglob_node p _ = []"


text \<open>\<open>PurePath.relative_to\<close>: \<open>None\<close> stands for its \<open>ValueError\<close>.\<close>

definition relative_to :: "path \<Rightarrow> path \<Rightarrow> path option" where
  "relative_to p base = (if take (length base) p = base then Some (drop (length base) p) else None)"

fun join :: "string \<Rightarrow> string list \<Rightarrow> string" where
  "join d [] = []"
| "join d [x] = x"
| "join d (x # y # ys) = x @ d @ join d (y # ys)"

text \<open>\<open>str\<close> of a relative path: its components joined by \<open>os.sep\<close>; the empty path is \<open>.\<close>\<close>

definition str_path :: "char \<Rightarrow> path \<Rightarrow> string" where
  "str_path sp p = (if p = [] then ''.'' else join [sp] p)"

text \<open>\<open>s.replace(old, new)\<close> for one-character \<open>old\<close> and \<open>new\<close>.\<close>

definition replace :: "char \<Rightarrow> char \<Rightarrow> string \<Rightarrow> string" where
  "replace old new s = map (\<lambda>c. if c = old then new else c) s"

abbreviation backslash :: char where
  "backslash \<equiv> CHR 0x5C"

section \<open>Decimal rendering of integers\<close>

fun str_nat :: "nat \<Rightarrow> string" where
  "str_nat n = (if n < 10 then [char_of (48 + n)] else str_nat (n div 10) @ [char_of (48 + n mod 10)])"

declare str_nat.simps [simp del]

definition str_int :: "int \<Rightarrow> string" where
  "str_int i = (if i < 0 then CHR ''-'' # str_nat (nat (- i)) else str_nat (nat i))"

section \<open>The upload script\<close>

subsection \<open>Its world\<close>

text \<open>
  The requests the script sends: the bucket creation, the deletion of an object and
  the creation of an object with a content type and a body.
\<close>

datatype request = PostBucket | DeleteObject string | PostObject string string string

text \<open>What a request comes back with: a response (status code, text) or an exception.\<close>

datatype reply = Resp int string | Exn string

text \<open>
  What the script prints, one constructor for each message; the banner, and the closing
  lines with the address of the site, are one message each.
\<close>

datatype line =
    LBanner | LCheckBucket | LBucketCreated | LBucketExists | LBucketStatus int
  | LBucketError string | LStart path | LUploading string | LOk | LFail "string option"
  | LDistMissing path | LDone nat | LFailed nat | LUrl

text \<open>
  The environment of a run: the path separator of the platform, the file system,
  \<open>mimetypes.guess_type\<close>, and the reply that the \<open>n\<close>-th request of the run
  receives.
\<close>

record env =
  sep :: char
  fs :: node
  guess_type :: "path \<Rightarrow> string option"
  net :: "nat \<Rightarrow> reply"

record world =
  sent :: "request list"
  store :: "string \<rightharpoonup> string"
  console :: "line list"

definition print :: "line \<Rightarrow> (world, unit) io" where
  "print l w = (Inr (), w\<lparr>console := console w @ [l]\<rparr>)"

text \<open>
  Modelled from the spec: the remote object store, an external service whose code is
  not in the repository. Section 6 of the specification gives its surface: a delete
  removes the object at the key, a post creates the object, and 200/201 mean success.
  A request that raises or is answered with another status leaves the bucket as it was.
\<close>

fun serve :: "request \<Rightarrow> reply \<Rightarrow> (string \<rightharpoonup> string) \<Rightarrow> (string \<rightharpoonup> string)" where
  "serve (DeleteObject k) (Resp c t) st = (if c = 200 \<or> c = 201 then st(k := None) else st)"
| "serve (PostObject k m b) (Resp c t) st = (if c = 200 \<or> c = 201 then st(k \<mapsto> b) else st)"
| "serve _ _ st = st"

text \<open>One call of \<open>requests.post\<close> or \<open>requests.delete\<close>.\<close>

definition http :: "env \<Rightarrow> request \<Rightarrow> (world, int \<times> string) io" where
  "http e rq w =
     (let r = net e (length (sent w));
          w' = w\<lparr>sent := sent w @ [rq], store := serve rq r (store w)\<rparr>
      in case r of Resp c t \<Rightarrow> (Inr (c, t), w') | Exn m \<Rightarrow> (Inl m, w'))"

definition os_path_exists :: "env \<Rightarrow> path \<Rightarrow> bool" where
  "os_path_exists e p = exists_node (lookup (fs e) p)"

text \<open>\<open>open(local_path, 'rb')\<close> and the reading of the whole file.\<close>

definition open_rb :: "env \<Rightarrow> path \<Rightarrow> (world, string) io" where
  "open_rb e p =
     (case lookup (fs e) p of
        Some (File b) \<Rightarrow> io_return b
      | Some (Unreadable m) \<Rightarrow> io_raise m
      | Some (Dir cs) \<Rightarrow> io_raise ''IsADirectoryError''
      | Some Denied \<Rightarrow> io_raise ''PermissionError''
      | Some Other \<Rightarrow> io_raise ''OSError''
      | None \<Rightarrow> io_raise ''FileNotFoundError'')"

definition rglob :: "env \<Rightarrow> path \<Rightarrow> (path \<times> node) list" where
  "rglob e p = (case lookup (fs e) p of None \<Rightarrow> [] | Some n \<Rightarrow> rglob_node p n)"

subsection \<open>Its functions\<close>

definition create_bucket :: "env \<Rightarrow> (world, unit) io" where
  "create_bucket e =
     io_bind (print LCheckBucket) (\<lambda>_.
     io_try
       (io_bind (http e PostBucket) (\<lambda>(c, t).
          if c = 200 \<or> c = 201 then print LBucketCreated
          else if c = 409 then print LBucketExists
          else print (LBucketStatus c)))
       (\<lambda>m. print (LBucketError m)))"

definition delete_file :: "env \<Rightarrow> string \<Rightarrow> (world, unit) io" where
  "delete_file e file_path =
     io_try (io_bind (http e (DeleteObject file_path)) (\<lambda>_. io_return ())) (\<lambda>_. io_return ())"

definition upload_file :: "env \<Rightarrow> path \<Rightarrow> string \<Rightarrow> (world, bool \<times> string option) io" where
  "upload_file e local_path remote_path =
     io_bind (delete_file e remote_path) (\<lambda>_.
     let mime_type = (case guess_type e local_path of
                        None \<Rightarrow> ''application/octet-stream'' | Some m \<Rightarrow> m)
     in io_try
          (io_bind (open_rb e local_path) (\<lambda>f.
           io_bind (http e (PostObject remote_path mime_type f)) (\<lambda>(c, t).
             if c = 200 \<or> c = 201 then io_return (True, None)
             else io_return (False, Some (''HTTP '' @ str_int c @ '': '' @ take 100 t)))))
          (\<lambda>m. io_return (False, Some m)))"

text \<open>The remote key of a file: \<open>str(relative_path).replace('\\', '/')\<close>.\<close>

definition remote_key :: "char \<Rightarrow> path \<Rightarrow> string" where
  "remote_key sp rel = replace backslash CHR ''/'' (str_path sp rel)"

text \<open>The body of the \<open>for\<close> loop of \<open>upload_directory\<close>, for one entry of \<open>rglob\<close>.\<close>

definition loop_body :: "env \<Rightarrow> path \<Rightarrow> path \<times> node \<Rightarrow> nat \<times> nat \<Rightarrow> (world, nat \<times> nat) io" where
  "loop_body e dist_path x acc =
     (case (x, acc) of ((file_path, n), (uploaded, failed)) \<Rightarrow>
        (case is_file n of
           Inl m \<Rightarrow> io_raise m
         | Inr True \<Rightarrow>
             (case relative_to file_path dist_path of
                None \<Rightarrow> io_raise ''ValueError''
              | Some relative_path \<Rightarrow>
                  (let remote_path = remote_key (sep e) relative_path in
                   io_bind (print (LUploading remote_path)) (\<lambda>_.
                   io_bind (upload_file e file_path remote_path) (\<lambda>(success, error).
                     if success
                     then io_bind (print LOk) (\<lambda>_. io_return (uploaded + 1, failed))
                     else io_bind (print (LFail error)) (\<lambda>_.
                            io_return (uploaded, failed + 1))))))
         | Inr False \<Rightarrow> io_return (uploaded, failed)))"

fun upload_loop ::
  "env \<Rightarrow> path \<Rightarrow> (path \<times> node) list \<Rightarrow> nat \<times> nat \<Rightarrow> (world, nat \<times> nat) io" where
  "upload_loop e dist_path [] acc = io_return acc"
| "upload_loop e dist_path (x # rest) acc =
     io_bind (loop_body e dist_path x acc) (upload_loop e dist_path rest)"

definition upload_directory :: "env \<Rightarrow> path \<Rightarrow> (world, nat \<times> nat) io" where
  "upload_directory e dist_dir =
     io_bind (print (LStart dist_dir)) (\<lambda>_. upload_loop e dist_dir (rglob e dist_dir) (0, 0))"

definition dist_dir :: path where
  "dist_dir = [''workspace'', ''nofx-deploy'', ''nofx'', ''web'', ''dist'']"

definition main :: "env \<Rightarrow> (world, int) io" where
  "main e =
     io_bind (print LBanner) (\<lambda>_.
     io_bind (create_bucket e) (\<lambda>_.
     if \<not> os_path_exists e dist_dir
     then io_bind (print (LDistMissing dist_dir)) (\<lambda>_. io_return 1)
     else
       io_bind (upload_directory e dist_dir) (\<lambda>(uploaded, failed).
       io_bind (print (LDone uploaded)) (\<lambda>_.
       io_bind (if failed > 0 then print (LFailed failed) else io_return ()) (\<lambda>_.
       io_bind (print LUrl) (\<lambda>_.
       io_return (if failed = 0 then 0 else 1)))))))"

text \<open>\<open>sys.exit(main())\<close>: an exception that leaves \<open>main\<close> ends the process with status 1.\<close>

definition exit_code :: "env \<Rightarrow> world \<Rightarrow> int" where
  "exit_code e w = (case fst (main e w) of Inl m \<Rightarrow> 1 | Inr c \<Rightarrow> c)"

section \<open>The deployment script\<close>

subsection \<open>Its world\<close>

text \<open>
  What \<open>subprocess.run\<close> comes back with: a completed process (return code, standard
  output, standard error), the expiry of the timeout, or another exception.
\<close>

datatype cmd_result = Completed int string string | TimeoutExpired | CmdError string

datatype level = Info | Success | Warning | Error

text \<open>
  What the script writes to the terminal: a call of one of the four logging functions,
  or one of the blocks that \<open>main\<close> prints.
\<close>

datatype dline = Log level | Banner | Step nat | Summary | FrontendOk | BackendManual

text \<open>
  The commands that the script runs change the file system (the build creates the
  \<open>dist\<close> directory), so the environment gives the file system as it is after
  \<open>n\<close> commands, together with the home directory and the result of the \<open>n\<close>-th
  command.
\<close>

record denv =
  home :: string
  fs_after :: "nat \<Rightarrow> node"
  shell :: "nat \<Rightarrow> cmd_result"

record dworld =
  environ :: "string \<rightharpoonup> string"
  executed :: "(string \<times> path option) list"
  out :: "dline list"

definition put :: "dline \<Rightarrow> (dworld, unit) io" where
  "put l w = (Inr (), w\<lparr>out := out w @ [l]\<rparr>)"

definition log_info :: "(dworld, unit) io" where
  "log_info = put (Log Info)"

definition log_success :: "(dworld, unit) io" where
  "log_success = put (Log Success)"

definition log_warning :: "(dworld, unit) io" where
  "log_warning = put (Log Warning)"

definition log_error :: "(dworld, unit) io" where
  "log_error = put (Log Error)"

definition os_getenv :: "string \<Rightarrow> (dworld, string option) io" where
  "os_getenv name w = (Inr (environ w name), w)"

definition os_setenv :: "string \<Rightarrow> string \<Rightarrow> (dworld, unit) io" where
  "os_setenv name v w = (Inr (), w\<lparr>environ := (environ w)(name \<mapsto> v)\<rparr>)"

definition path_exists :: "denv \<Rightarrow> path \<Rightarrow> (dworld, bool) io" where
  "path_exists e p w = (Inr (exists_node (lookup (fs_after e (length (executed w))) p)), w)"

text \<open>Python's truth value of \<open>os.getenv(...)\<close>: false for \<open>None\<close> and for the empty string.\<close>

fun truthy :: "string option \<Rightarrow> bool" where
  "truthy None = False"
| "truthy (Some v) = (v \<noteq> [])"

definition subprocess_run ::
  "denv \<Rightarrow> string \<Rightarrow> path option \<Rightarrow> bool \<Rightarrow> (dworld, int \<times> string option \<times> string option) io" where
  "subprocess_run e cmd cwd capture_output w =
     (let r = shell e (length (executed w)); w' = w\<lparr>executed := executed w @ [(cmd, cwd)]\<rparr>
      in case r of
           Completed rc so se \<Rightarrow>
             (Inr (rc, if capture_output then (Some so, Some se) else (None, None)), w')
         | TimeoutExpired \<Rightarrow> (Inl ''TimeoutExpired'', w')
         | CmdError m \<Rightarrow> (Inl m, w'))"

text \<open>
  \<open>os.walk(top)\<close>: for the directory and then for each of its sub-directories, the
  path, the names of the sub-directories and the names of the other entries. The
  listing is taken when the loop starts.
\<close>

fun is_dir :: "node \<Rightarrow> bool" where
  "is_dir (Dir _) = True"
| "is_dir _ = False"

fun walk_node :: "path \<Rightarrow> node \<Rightarrow> (path \<times> string list \<times> string list) list" where
  "walk_node p (Dir cs) =
     (p, map fst (filter (\<lambda>c. is_dir (snd c)) cs), map fst (filter (\<lambda>c. \<not> is_dir (snd c)) cs))
     # concat (map (\<lambda>c. walk_node (p @ [fst c]) (snd c)) cs)"
| "walk_node p _ = []"

definition os_walk :: "denv \<Rightarrow> path \<Rightarrow> (dworld, (path \<times> string list \<times> string list) list) io" where
  "os_walk e p w =
     (Inr (case lookup (fs_after e (length (executed w))) p of
             None \<Rightarrow> [] | Some n \<Rightarrow> walk_node p n), w)"

text \<open>An absolute path as a string, and \<open>os.path.join\<close> of two strings.\<close>

definition abs_str :: "path \<Rightarrow> string" where
  "abs_str p = (if p = [] then ''/'' else concat (map (\<lambda>c. CHR ''/'' # c) p))"

definition os_path_join :: "string \<Rightarrow> string \<Rightarrow> string" where
  "os_path_join a b =
     (if b \<noteq> [] \<and> hd b = CHR ''/'' then b
      else if a = [] \<or> last a = CHR ''/'' then a @ b
      else a @ ''/'' @ b)"

abbreviation dquote :: string where
  "dquote \<equiv> [CHR 0x22]"

subsection \<open>Its functions\<close>

text \<open>
  Both \<open>except\<close> clauses of \<open>run_command\<close> log an error and return \<open>(False, None)\<close>.
\<close>

definition run_command ::
  "denv \<Rightarrow> string \<Rightarrow> path option \<Rightarrow> bool \<Rightarrow> (dworld, bool \<times> string option) io" where
  "run_command e cmd cwd capture_output =
     io_try
       (io_bind log_info (\<lambda>_.
        io_bind (subprocess_run e cmd cwd capture_output) (\<lambda>(returncode, stdout, stderr).
          if returncode = 0 then io_return (True, stdout)
          else io_bind log_error (\<lambda>_. io_return (False, stderr)))))
       (\<lambda>m. io_bind log_error (\<lambda>_. io_return (False, None)))"

definition install_zeabur_cli :: "denv \<Rightarrow> (dworld, bool) io" where
  "install_zeabur_cli e =
     io_bind log_info (\<lambda>_.
     io_bind (run_command e ''which zeabur'' None True) (\<lambda>(success, _).
     if success then io_bind log_success (\<lambda>_. io_return True)
     else
       io_bind log_warning (\<lambda>_.
       io_bind (run_command e ''curl -fsSL https://zeabur.com/install.sh | bash'' None False)
         (\<lambda>(success, _).
       if success then
         (let zeabur_path = os_path_join (os_path_join (home e) ''.zeabur'') ''bin'' in
          io_bind (os_getenv ''PATH'') (\<lambda>old.
          io_bind (os_setenv ''PATH''
                     (zeabur_path @ '':'' @ (case old of None \<Rightarrow> [] | Some v \<Rightarrow> v))) (\<lambda>_.
          io_bind log_success (\<lambda>_. io_return True))))
       else io_bind log_error (\<lambda>_. io_return False)))))"

definition web_dir :: path where
  "web_dir = [''workspace'', ''nofx-deploy'', ''nofx'', ''web'']"

definition build_frontend :: "denv \<Rightarrow> (dworld, bool) io" where
  "build_frontend e =
     io_bind log_info (\<lambda>_.
     io_bind log_info (\<lambda>_.
     io_bind (run_command e ''npm install'' (Some web_dir) False) (\<lambda>(success, _).
     if \<not> success then io_bind log_error (\<lambda>_. io_return False)
     else
       io_bind log_info (\<lambda>_.
       io_bind (run_command e ''npm run build'' (Some web_dir) True) (\<lambda>(success, output).
       if \<not> success then io_bind log_error (\<lambda>_. io_return False)
       else io_bind log_success (\<lambda>_. io_return True))))))"

definition project_dir :: path where
  "project_dir = [''workspace'', ''nofx-deploy'', ''nofx'']"

definition deploy_to_zeabur :: "denv \<Rightarrow> (dworld, bool \<times> string option) io" where
  "deploy_to_zeabur e =
     io_bind log_info (\<lambda>_.
     io_bind (os_getenv ''ZEABUR_TOKEN'') (\<lambda>zeabur_token.
     if \<not> truthy zeabur_token then io_bind log_error (\<lambda>_. io_return (False, None))
     else
       io_bind (path_exists e (project_dir @ [''.git''])) (\<lambda>has_git.
       io_bind
         (if \<not> has_git then
            io_bind (run_command e ''git init'' (Some project_dir) False) (\<lambda>_.
            io_bind (run_command e ''git add .'' (Some project_dir) False) (\<lambda>_.
            io_bind (run_command e (''git commit -m '' @ dquote @ ''Initial commit'' @ dquote)
                       (Some project_dir) False) (\<lambda>_. io_return ())))
          else io_return ()) (\<lambda>_.
       io_bind log_info (\<lambda>_.
       io_bind log_warning (\<lambda>_.
       io_return (False, None)))))))"

definition project_ref :: string where
  "project_ref = ''eqzurdzoaxibothslnna''"

definition bucket_name :: string where
  "bucket_name = ''nofx-frontend''"

text \<open>The command that copies one file into the bucket.\<close>

definition cp_command :: "string \<Rightarrow> string \<Rightarrow> string \<Rightarrow> string" where
  "cp_command token file_path rel_path =
     ''supabase storage cp '' @ dquote @ file_path @ dquote @ '' ''
     @ dquote @ bucket_name @ ''/'' @ rel_path @ dquote
     @ '' --token '' @ token @ '' --project-ref '' @ project_ref"

text \<open>The inner loop of \<open>deploy_frontend_to_supabase\<close>: the files of one directory.\<close>

fun cp_files ::
  "denv \<Rightarrow> string \<Rightarrow> path \<Rightarrow> path \<Rightarrow> string list \<Rightarrow> nat \<Rightarrow> (dworld, nat) io" where
  "cp_files e token dist root [] files_uploaded = io_return files_uploaded"
| "cp_files e token dist root (file # files) files_uploaded =
     (let file_path = os_path_join (abs_str root) file;
          rel_path = join ''/'' (drop (length dist) (root @ [file]));
          cmd = cp_command token file_path rel_path
      in io_bind (run_command e cmd None False) (\<lambda>(success, _).
         cp_files e token dist root files
           (if success then files_uploaded + 1 else files_uploaded)))"

text \<open>The outer loop: the directories that \<open>os.walk\<close> yields.\<close>

fun cp_dirs ::
  "denv \<Rightarrow> string \<Rightarrow> path \<Rightarrow> (path \<times> string list \<times> string list) list \<Rightarrow> nat
     \<Rightarrow> (dworld, nat) io" where
  "cp_dirs e token dist [] files_uploaded = io_return files_uploaded"
| "cp_dirs e token dist ((root, dirs, files) # rest) files_uploaded =
     io_bind (cp_files e token dist root files files_uploaded) (cp_dirs e token dist rest)"

definition deploy_frontend_to_supabase :: "denv \<Rightarrow> (dworld, bool) io" where
  "deploy_frontend_to_supabase e =
     io_bind log_info (\<lambda>_.
     io_bind (os_getenv ''SUPABASE_ACCESS_TOKEN'') (\<lambda>supabase_token.
     if \<not> truthy supabase_token then io_bind log_error (\<lambda>_. io_return False)
     else
       (let token = (case supabase_token of None \<Rightarrow> [] | Some v \<Rightarrow> v);
            dist = web_dir @ [''dist'']
        in io_bind (path_exists e dist) (\<lambda>has_dist.
           if \<not> has_dist then io_bind log_error (\<lambda>_. io_return False)
           else
             io_bind log_info (\<lambda>_.
             io_bind (run_command e
                        (''supabase storage ls --token '' @ token @ '' --project-ref ''
                         @ project_ref) None False) (\<lambda>_.
             io_bind (os_walk e dist) (\<lambda>listing.
             io_bind (cp_dirs e token dist listing 0) (\<lambda>files_uploaded.
             io_bind log_success (\<lambda>_.
             io_bind log_success (\<lambda>_.
             io_return True))))))))))"

definition deploy_main :: "denv \<Rightarrow> (dworld, int) io" where
  "deploy_main e =
     io_bind (put Banner) (\<lambda>_.
     io_bind (put (Step 1)) (\<lambda>_.
     io_bind (install_zeabur_cli e) (\<lambda>installed.
     io_bind (if \<not> installed then log_warning else io_return ()) (\<lambda>_.
     io_bind (put (Step 2)) (\<lambda>_.
     io_bind (build_frontend e) (\<lambda>built.
     if \<not> built then io_bind log_error (\<lambda>_. io_return 1)
     else
       io_bind (put (Step 3)) (\<lambda>_.
       io_bind log_info (\<lambda>_.
       io_bind (deploy_to_zeabur e) (\<lambda>(backend_success, backend_url).
       io_bind log_info (\<lambda>_.
       io_bind (deploy_frontend_to_supabase e) (\<lambda>frontend_success.
       io_bind (put Summary) (\<lambda>_.
       io_bind (if frontend_success then put FrontendOk else io_return ()) (\<lambda>_.
       io_bind (if \<not> backend_success then put BackendManual else io_return ()) (\<lambda>_.
       io_return (if frontend_success \<or> backend_success then 0 else 1)))))))))))))))"

text \<open>
  The script's last lines: \<open>sys.exit(main())\<close>, and status 1 when an exception leaves
  \<open>main\<close>.
\<close>

definition deploy_exit_code :: "denv \<Rightarrow> dworld \<Rightarrow> int" where
  "deploy_exit_code e w = (case fst (deploy_main e w) of Inl m \<Rightarrow> 1 | Inr c \<Rightarrow> c)"

section \<open>Notions used in the statements\<close>

text \<open>The outcome that \<open>upload_file\<close> derives from the reply to its post request.\<close>

fun put_outcome :: "reply \<Rightarrow> bool \<times> string option" where
  "put_outcome (Resp c t) =
     (if c = 200 \<or> c = 201 then (True, None)
      else (False, Some (''HTTP '' @ str_int c @ '': '' @ take 100 t)))"
| "put_outcome (Exn m) = (False, Some m)"

definition mime_of :: "env \<Rightarrow> path \<Rightarrow> string" where
  "mime_of e p = (case guess_type e p of None \<Rightarrow> ''application/octet-stream'' | Some m \<Rightarrow> m)"

fun is_ok :: "line \<Rightarrow> bool" where
  "is_ok LOk = True"
| "is_ok _ = False"

fun is_fail :: "line \<Rightarrow> bool" where
  "is_fail (LFail _) = True"
| "is_fail _ = False"

fun is_uploading :: "line \<Rightarrow> bool" where
  "is_uploading (LUploading _) = True"
| "is_uploading _ = False"

fun is_delete :: "request \<Rightarrow> bool" where
  "is_delete (DeleteObject _) = True"
| "is_delete _ = False"

fun key_of :: "request \<Rightarrow> string" where
  "key_of PostBucket = []"
| "key_of (DeleteObject k) = k"
| "key_of (PostObject k m b) = k"

subsection \<open>Example worlds\<close>

text \<open>A tree placed at the directory that the scripts deploy.\<close>

definition at_dist :: "node \<Rightarrow> node" where
  "at_dist t =
     Dir [(''workspace'', Dir [(''nofx-deploy'', Dir [(''nofx'', Dir [(''web'',
       Dir [(''dist'', t)])])])])]"

definition site :: node where
  "site = Dir [(''index.html'', File ''<html>''), (''assets'', Dir [(''app.js'', File ''js'')])]"

definition world0 :: world where
  "world0 = \<lparr>sent = [], store = Map.empty, console = []\<rparr>"

definition site_env :: "(nat \<Rightarrow> reply) \<Rightarrow> env" where
  "site_env r = \<lparr>sep = CHR ''/'', fs = at_dist site, guess_type = (\<lambda>p. None), net = r\<rparr>"



text \<open>The line that \<open>create_bucket\<close> prints for the reply to its request.\<close>

fun bucket_line :: "reply \<Rightarrow> line" where
  "bucket_line (Resp c t) =
     (if c = 200 \<or> c = 201 then LBucketCreated
      else if c = 409 then LBucketExists else LBucketStatus c)"
| "bucket_line (Exn m) = LBucketError m"

text \<open>A machine on which the directory to deploy does not exist.\<close>

definition bare_env :: env where
  "bare_env = \<lparr>sep = CHR ''/'', fs = Dir [], guess_type = (\<lambda>p. None), net = (\<lambda>n. Resp 200 [])\<rparr>"

text \<open>The file \<open>index.html\<close> of the example site.\<close>

definition index_path :: path where
  "index_path = dist_dir @ [''index.html'']"

subsection \<open>Remote keys\<close>




subsection \<open>The objects in the bucket\<close>

text \<open>
  What a run in which no upload fails does to the bucket: for each regular file that
  the loop reaches, in the order of the traversal, the object at the file's key
  becomes the content of the file. The loop reaches the entries that come before the
  first one whose status \<open>is_file\<close> cannot read.
\<close>

definition processed :: "(path \<times> node) list \<Rightarrow> (path \<times> node) list" where
  "processed es = takeWhile (\<lambda>x. snd x \<noteq> Denied) es"

fun content_of :: "node option \<Rightarrow> string option" where
  "content_of (Some (File b)) = Some b"
| "content_of _ = None"

definition file_updates :: "env \<Rightarrow> path \<Rightarrow> (path \<times> node) list \<Rightarrow> (string \<times> string option) list" where
  "file_updates e d es =
     map (\<lambda>x. (remote_key (sep e) (drop (length d) (fst x)), content_of (lookup (fs e) (fst x))))
       (filter (\<lambda>x. regular (snd x)) es)"

fun apply_updates ::
  "(string \<rightharpoonup> string) \<Rightarrow> (string \<times> string option) list \<Rightarrow> (string \<rightharpoonup> string)" where
  "apply_updates st [] = st"
| "apply_updates st ((k, v) # us) = apply_updates (st(k := v)) us"

text \<open>
  A first deployment: the bucket holds nothing, so every delete is answered with 404,
  and every post with 200. In a traversal of files that can be opened the requests
  alternate, the deletes at the even positions.
\<close>

definition fresh_env :: env where
  "fresh_env = site_env (\<lambda>n. if n mod 2 = 0 then Resp 404 ''Not Found'' else Resp 200 [])"

text \<open>A network on which the sixth request of a session times out.\<close>

definition flaky_env :: env where
  "flaky_env = site_env (\<lambda>n. if n = 5 then Exn ''timed out'' else Resp 200 [])"

subsection \<open>The deployment script\<close>

text \<open>
  The worlds in which \<open>main\<close> of the deployment script starts the build, the backend
  deployment and the frontend deployment.
\<close>

definition build_world :: "denv \<Rightarrow> dworld \<Rightarrow> dworld" where
  "build_world e w =
     snd (io_bind (put Banner) (\<lambda>_.
          io_bind (put (Step 1)) (\<lambda>_.
          io_bind (install_zeabur_cli e) (\<lambda>installed.
          io_bind (if \<not> installed then log_warning else io_return ()) (\<lambda>_.
          put (Step 2))))) w)"

definition backend_world :: "denv \<Rightarrow> dworld \<Rightarrow> dworld" where
  "backend_world e w =
     snd (io_bind (put (Step 3)) (\<lambda>_. log_info) (snd (build_frontend e (build_world e w))))"

definition frontend_world :: "denv \<Rightarrow> dworld \<Rightarrow> dworld" where
  "frontend_world e w =
     snd (io_bind (deploy_to_zeabur e) (\<lambda>_. log_info) (backend_world e w))"

text \<open>What \<open>run_command\<close> returns and logs for the result of its command.\<close>

fun cmd_outcome :: "cmd_result \<Rightarrow> bool \<Rightarrow> bool \<times> string option" where
  "cmd_outcome (Completed rc so se) cap =
     (rc = 0, if cap then Some (if rc = 0 then so else se) else None)"
| "cmd_outcome _ cap = (False, None)"

fun cmd_logs :: "cmd_result \<Rightarrow> dline list" where
  "cmd_logs (Completed rc so se) = Log Info # (if rc = 0 then [] else [Log Error])"
| "cmd_logs _ = [Log Info, Log Error]"

text \<open>
  A machine on which every command succeeds, the site is built, and both tokens are set.
\<close>

definition denv0 :: denv where
  "denv0 = \<lparr>home = ''/root'', fs_after = (\<lambda>n. at_dist site), shell = (\<lambda>n. Completed 0 [] [])\<rparr>"

definition dworld0 :: dworld where
  "dworld0 = \<lparr>environ = [''ZEABUR_TOKEN'' \<mapsto> ''zt'', ''SUPABASE_ACCESS_TOKEN'' \<mapsto> ''st''],
     executed = [], out = []\<rparr>"

section \<open>Basic facts about the upload script\<close>

lemma delete_file_run:
  "delete_file e k w =
     (Inr (), w\<lparr>sent := sent w @ [DeleteObject k],
               store := serve (DeleteObject k) (net e (length (sent w))) (store w)\<rparr>)"
  by (simp add: delete_file_def io_try_def io_bind_def io_return_def http_def Let_def split: reply.splits)

lemma upload_file_readable:
  assumes "lookup (fs e) lp = Some (File b)"
  shows "upload_file e lp rp w =
     (Inr (put_outcome (net e (Suc (length (sent w))))),
      w\<lparr>sent := sent w @ [DeleteObject rp, PostObject rp (mime_of e lp) b],
        store := serve (PostObject rp (mime_of e lp) b) (net e (Suc (length (sent w))))
                   (serve (DeleteObject rp) (net e (length (sent w))) (store w))\<rparr>)"
  using assms
  by (simp add: upload_file_def delete_file_run io_try_def io_bind_def io_return_def http_def
      open_rb_def mime_of_def Let_def split: reply.splits)

lemma upload_file_unreadable:
  assumes "\<forall>b. lookup (fs e) lp \<noteq> Some (File b)"
  shows "\<exists>m. upload_file e lp rp w =
     (Inr (False, Some m),
      w\<lparr>sent := sent w @ [DeleteObject rp],
        store := serve (DeleteObject rp) (net e (length (sent w))) (store w)\<rparr>)"
  using assms
  by (simp add: upload_file_def delete_file_run io_try_def io_bind_def io_return_def io_raise_def
      open_rb_def Let_def split: option.splits node.splits)

lemma is_file_regular: "regular n \<Longrightarrow> is_file n = Inr True"
  by (cases n) simp_all

lemma is_file_other: "n \<noteq> Denied \<Longrightarrow> \<not> regular n \<Longrightarrow> is_file n = Inr False"
  by (cases n) simp_all

lemma loop_body_denied:
  "loop_body e d (fp, Denied) (u, f) w = (Inl ''PermissionError'', w)"
  by (simp add: loop_body_def io_raise_def)

lemma loop_body_skip:
  "n \<noteq> Denied \<Longrightarrow> \<not> regular n \<Longrightarrow> loop_body e d (fp, n) (u, f) w = (Inr (u, f), w)"
  by (simp add: loop_body_def io_return_def is_file_other)

lemma loop_body_file:
  assumes "regular n" and "take (length d) fp = d"
  shows "\<exists>ok err rs w'.
     loop_body e d (fp, n) (u, f) w = (Inr (if ok then (Suc u, f) else (u, Suc f)), w')
   \<and> console w' = console w
        @ [LUploading (remote_key (sep e) (drop (length d) fp)), if ok then LOk else LFail err]
   \<and> sent w' = sent w @ DeleteObject (remote_key (sep e) (drop (length d) fp)) # rs
   \<and> (rs = [] \<or> (\<exists>m b. rs = [PostObject (remote_key (sep e) (drop (length d) fp)) m b]))"
proof (cases "\<exists>b. lookup (fs e) fp = Some (File b)")
  case True
  then obtain b where b: "lookup (fs e) fp = Some (File b)" by blast
  obtain ok err where oc: "put_outcome (net e (Suc (length (sent w)))) = (ok, err)"
    by (cases "put_outcome (net e (Suc (length (sent w))))")
  show ?thesis
    using assms oc
    by (cases ok)
       (auto simp add: loop_body_def relative_to_def Let_def io_bind_def print_def
          upload_file_readable [OF b] io_return_def is_file_regular)
next
  case False
  then have nb: "\<forall>b. lookup (fs e) fp \<noteq> Some (File b)" by blast
  let ?k = "remote_key (sep e) (drop (length d) fp)"
  let ?w1 = "w\<lparr>console := console w @ [LUploading ?k]\<rparr>"
  from upload_file_unreadable [OF nb, of ?k ?w1]
  obtain m where m: "upload_file e fp ?k ?w1 =
     (Inr (False, Some m),
      ?w1\<lparr>sent := sent ?w1 @ [DeleteObject ?k],
        store := serve (DeleteObject ?k) (net e (length (sent ?w1))) (store ?w1)\<rparr>)"
    by blast
  show ?thesis
    using assms
    apply (simp add: loop_body_def relative_to_def Let_def io_bind_def print_def m io_return_def
        is_file_regular)
    apply (rule exI [of _ False])
    apply simp
    done
qed

lemma rglob_node_prefix:
  "x \<in> set (rglob_node p n) \<Longrightarrow> take (length p) (fst x) = p"
proof (induction p n arbitrary: x rule: rglob_node.induct)
  case (1 p cs)
  from "1.prems" consider
      (child) c where "c \<in> set cs" "x = (p @ [fst c], snd c)"
    | (below) c where "c \<in> set cs" "x \<in> set (rglob_node (p @ [fst c]) (snd c))"
    by auto
  then show ?case
  proof cases
    case child
    then show ?thesis by simp
  next
    case below
    from "1.IH" [OF below] have "take (length (p @ [fst c])) (fst x) = p @ [fst c]" .
    then have "take (length p) (take (Suc (length p)) (fst x)) = take (length p) (p @ [fst c])"
      by simp
    then show ?thesis by (simp add: min_def)
  qed
qed simp_all



lemma upload_loop_run:
  assumes "\<forall>x\<in>set es. take (length d) (fst x) = d"
    and "\<forall>x\<in>set es. snd x \<noteq> Denied"
  shows "\<exists>u' f' w' ls rs.
     upload_loop e d es (u, f) w = (Inr (u', f'), w')
   \<and> console w' = console w @ ls \<and> sent w' = sent w @ rs
   \<and> u' = u + length (filter is_ok ls) \<and> f' = f + length (filter is_fail ls)
   \<and> length (filter is_uploading ls) = length (filter (\<lambda>x. regular (snd x)) es)
   \<and> length (filter is_delete rs) = length (filter (\<lambda>x. regular (snd x)) es)
   \<and> u' + f' = u + f + length (filter (\<lambda>x. regular (snd x)) es)
   \<and> (\<forall>rq\<in>set rs. \<exists>x\<in>set es. key_of rq = remote_key (sep e) (drop (length d) (fst x)))"
  using assms
proof (induction es arbitrary: u f w)
  case Nil
  show ?case by (simp add: io_return_def)
next
  case (Cons x es)
  obtain fp n where x: "x = (fp, n)" by (cases x)
  from Cons.prems have pre: "take (length d) fp = d"
    and rest: "\<forall>x\<in>set es. take (length d) (fst x) = d"
    and nd: "n \<noteq> Denied"
    and restnd: "\<forall>x\<in>set es. snd x \<noteq> Denied"
    by (simp_all add: x)
  show ?case
  proof (cases "regular n")
    case False
    from Cons.IH [OF rest restnd, of u f w] show ?thesis
      using False nd by (auto simp add: x io_bind_def loop_body_skip)
  next
    case True
    from loop_body_file [OF True pre, of e u f w]
    obtain ok err rs1 w1 where
      s1: "loop_body e d (fp, n) (u, f) w = (Inr (if ok then (Suc u, f) else (u, Suc f)), w1)"
      and c1: "console w1 = console w
        @ [LUploading (remote_key (sep e) (drop (length d) fp)), if ok then LOk else LFail err]"
      and r1: "sent w1 = sent w @ DeleteObject (remote_key (sep e) (drop (length d) fp)) # rs1"
      and k1: "rs1 = [] \<or> (\<exists>m b. rs1 = [PostObject (remote_key (sep e) (drop (length d) fp)) m b])"
      by blast
    from Cons.IH [OF rest restnd, of "if ok then Suc u else u" "if ok then f else Suc f" w1]
    obtain u' f' w' ls rs where
      s2: "upload_loop e d es (if ok then Suc u else u, if ok then f else Suc f) w1 = (Inr (u', f'), w')"
      and c2: "console w' = console w1 @ ls" and r2: "sent w' = sent w1 @ rs"
      and u2: "u' = (if ok then Suc u else u) + length (filter is_ok ls)"
      and f2: "f' = (if ok then f else Suc f) + length (filter is_fail ls)"
      and n2: "length (filter is_uploading ls) = length (filter (\<lambda>x. regular (snd x)) es)"
      and d2: "length (filter is_delete rs) = length (filter (\<lambda>x. regular (snd x)) es)"
      and k2: "\<forall>rq\<in>set rs. \<exists>x\<in>set es. key_of rq = remote_key (sep e) (drop (length d) (fst x))"
      and t2: "u' + f' = (if ok then Suc u else u) + (if ok then f else Suc f)
                 + length (filter (\<lambda>x. regular (snd x)) es)"
      by blast
    have run: "upload_loop e d (x # es) (u, f) w = (Inr (u', f'), w')"
      using s1 s2 by (cases ok) (simp_all add: x io_bind_def)
    let ?ls = "[LUploading (remote_key (sep e) (drop (length d) fp)), if ok then LOk else LFail err] @ ls"
    let ?rs = "DeleteObject (remote_key (sep e) (drop (length d) fp)) # rs1 @ rs"
    have "console w' = console w @ ?ls" by (simp add: c1 c2)
    moreover have "sent w' = sent w @ ?rs" by (simp add: r1 r2)
    moreover have "u' = u + length (filter is_ok ?ls)" using u2 by (cases ok) simp_all
    moreover have "f' = f + length (filter is_fail ?ls)" using f2 by (cases ok) simp_all
    moreover have "length (filter is_uploading ?ls) = length (filter (\<lambda>x. regular (snd x)) (x # es))"
      using n2 True by (cases ok) (simp_all add: x)
    moreover have "length (filter is_delete ?rs) = length (filter (\<lambda>x. regular (snd x)) (x # es))"
      using d2 True k1 by (auto simp add: x)
    moreover have "u' + f' = u + f + length (filter (\<lambda>x. regular (snd x)) (x # es))"
      using t2 True by (cases ok) (simp_all add: x)
    moreover have "\<forall>rq\<in>set ?rs. \<exists>y\<in>set (x # es). key_of rq = remote_key (sep e) (drop (length d) (fst y))"
      using k1 k2 by (auto simp add: x)
    ultimately show ?thesis using run by blast
  qed
qed


lemma lookup_at_dist: "lookup (at_dist t) dist_dir = Some t"
  by (simp add: at_dist_def dist_dir_def)

lemma rglob_prefix: "\<forall>x\<in>set (rglob e d). take (length d) (fst x) = d"
  using rglob_node_prefix [of _ d] by (fastforce simp add: rglob_def split: option.splits)

lemma upload_directory_run:
  assumes "\<forall>x\<in>set (rglob e d). snd x \<noteq> Denied"
  shows "\<exists>u f w' ls rs.
     upload_directory e d w = (Inr (u, f), w')
   \<and> console w' = console w @ LStart d # ls \<and> sent w' = sent w @ rs
   \<and> u = length (filter is_ok ls) \<and> f = length (filter is_fail ls)
   \<and> length (filter is_uploading ls) = length (filter (\<lambda>x. regular (snd x)) (rglob e d))
   \<and> length (filter is_delete rs) = length (filter (\<lambda>x. regular (snd x)) (rglob e d))
   \<and> u + f = length (filter (\<lambda>x. regular (snd x)) (rglob e d))
   \<and> (\<forall>rq\<in>set rs. \<exists>x\<in>set (rglob e d).
         key_of rq = remote_key (sep e) (drop (length d) (fst x)))"
proof -
  from upload_loop_run [OF rglob_prefix [of e d] assms, of e 0 0
      "w\<lparr>console := console w @ [LStart d]\<rparr>"]
  show ?thesis
    by (simp add: upload_directory_def io_bind_def print_def)
qed

text \<open>What holds of the loop when an entry may make it raise.\<close>

lemma upload_loop_partial:
  assumes "\<forall>x\<in>set es. take (length d) (fst x) = d"
  shows "\<exists>r w' ls rs.
     upload_loop e d es (u, f) w = (r, w')
   \<and> console w' = console w @ ls \<and> sent w' = sent w @ rs
   \<and> (\<forall>rq\<in>set rs. \<exists>x\<in>set es. key_of rq = remote_key (sep e) (drop (length d) (fst x)))
   \<and> (case r of
         Inr (u', f') \<Rightarrow> u' = u + length (filter is_ok ls) \<and> f' = f + length (filter is_fail ls)
       | Inl m \<Rightarrow> m = ''PermissionError'' \<and> (\<exists>x\<in>set es. snd x = Denied))"
  using assms
proof (induction es arbitrary: u f w)
  case Nil
  show ?case by (simp add: io_return_def)
next
  case (Cons x es)
  obtain fp n where x: "x = (fp, n)" by (cases x)
  from Cons.prems have pre: "take (length d) fp = d"
    and rest: "\<forall>x\<in>set es. take (length d) (fst x) = d"
    by (simp_all add: x)
  show ?case
  proof (cases "n = Denied")
    case True
    have "upload_loop e d (x # es) (u, f) w = (Inl ''PermissionError'', w)"
      by (simp add: x True io_bind_def loop_body_denied)
    then show ?thesis
      by (simp add: x True)
  next
    case nd: False
    show ?thesis
    proof (cases "regular n")
      case False
      from Cons.IH [OF rest, of u f w]
      obtain r w' ls rs where
        s2: "upload_loop e d es (u, f) w = (r, w')"
        and c2: "console w' = console w @ ls" and r2: "sent w' = sent w @ rs"
        and k2: "\<forall>rq\<in>set rs. \<exists>x\<in>set es. key_of rq = remote_key (sep e) (drop (length d) (fst x))"
        and v2: "case r of
           Inr (u', f') \<Rightarrow> u' = u + length (filter is_ok ls) \<and> f' = f + length (filter is_fail ls)
         | Inl m \<Rightarrow> m = ''PermissionError'' \<and> (\<exists>x\<in>set es. snd x = Denied)"
        by (elim exE conjE)
      have run: "upload_loop e d (x # es) (u, f) w = (r, w')"
        using s2 by (simp add: x io_bind_def loop_body_skip [OF nd False])
      have k: "\<forall>rq\<in>set rs. \<exists>y\<in>set (x # es).
          key_of rq = remote_key (sep e) (drop (length d) (fst y))"
        using k2 by auto
      have v: "case r of
           Inr (u', f') \<Rightarrow> u' = u + length (filter is_ok ls) \<and> f' = f + length (filter is_fail ls)
         | Inl m \<Rightarrow> m = ''PermissionError'' \<and> (\<exists>y\<in>set (x # es). snd y = Denied)"
        using v2 by (cases r) auto
      from run c2 r2 k v show ?thesis by blast
    next
      case True
      let ?k = "remote_key (sep e) (drop (length d) fp)"
      from loop_body_file [OF True pre, of e u f w]
      obtain ok err rs1 and w1 :: world where
        s1: "loop_body e d (fp, n) (u, f) w = (Inr (if ok then (Suc u, f) else (u, Suc f)), w1)"
        and c1: "console w1 = console w @ [LUploading ?k, if ok then LOk else LFail err]"
        and r1: "sent w1 = sent w @ DeleteObject ?k # rs1"
        and k1: "rs1 = [] \<or> (\<exists>m b. rs1 = [PostObject ?k m b])"
        by (elim exE conjE)
      from Cons.IH [OF rest, of "if ok then Suc u else u" "if ok then f else Suc f" w1]
      obtain r and w' :: world and ls rs where
        s2: "upload_loop e d es (if ok then Suc u else u, if ok then f else Suc f) w1 = (r, w')"
        and c2: "console w' = console w1 @ ls" and r2: "sent w' = sent w1 @ rs"
        and k2: "\<forall>rq\<in>set rs. \<exists>x\<in>set es. key_of rq = remote_key (sep e) (drop (length d) (fst x))"
        and v2: "case r of
           Inr (u', f') \<Rightarrow> u' = (if ok then Suc u else u) + length (filter is_ok ls)
              \<and> f' = (if ok then f else Suc f) + length (filter is_fail ls)
         | Inl m \<Rightarrow> m = ''PermissionError'' \<and> (\<exists>x\<in>set es. snd x = Denied)"
        by (elim exE conjE)
      let ?ls = "[LUploading ?k, if ok then LOk else LFail err] @ ls"
      let ?rs = "DeleteObject ?k # rs1 @ rs"
      have run: "upload_loop e d (x # es) (u, f) w = (r, w')"
        using s1 s2 by (cases ok) (simp_all add: x io_bind_def)
      have c: "console w' = console w @ ?ls" by (simp add: c1 c2)
      have rr: "sent w' = sent w @ ?rs" by (simp add: r1 r2)
      have k: "\<forall>rq\<in>set ?rs. \<exists>y\<in>set (x # es).
          key_of rq = remote_key (sep e) (drop (length d) (fst y))"
        using k1 k2 by (auto simp add: x)
      have v: "case r of
           Inr (u', f') \<Rightarrow> u' = u + length (filter is_ok ?ls) \<and> f' = f + length (filter is_fail ?ls)
         | Inl m \<Rightarrow> m = ''PermissionError'' \<and> (\<exists>y\<in>set (x # es). snd y = Denied)"
        using v2 by (cases r; cases ok) auto
      from run c rr k v show ?thesis by blast
    qed
  qed
qed

lemma upload_directory_partial:
  "\<exists>r w' ls rs.
     upload_directory e d w = (r, w')
   \<and> console w' = console w @ LStart d # ls \<and> sent w' = sent w @ rs
   \<and> (\<forall>rq\<in>set rs. \<exists>x\<in>set (rglob e d).
         key_of rq = remote_key (sep e) (drop (length d) (fst x)))
   \<and> (case r of
         Inr (u, f) \<Rightarrow> u = length (filter is_ok ls) \<and> f = length (filter is_fail ls)
       | Inl m \<Rightarrow> m = ''PermissionError'' \<and> (\<exists>x\<in>set (rglob e d). snd x = Denied))"
proof -
  let ?w0 = "w\<lparr>console := console w @ [LStart d]\<rparr>"
  from upload_loop_partial [OF rglob_prefix [of e d], of e 0 0 ?w0]
  obtain r and w' :: world and ls rs where
    s: "upload_loop e d (rglob e d) (0, 0) ?w0 = (r, w')"
    and c: "console w' = console ?w0 @ ls" and rr: "sent w' = sent ?w0 @ rs"
    and k: "\<forall>rq\<in>set rs. \<exists>x\<in>set (rglob e d).
         key_of rq = remote_key (sep e) (drop (length d) (fst x))"
    and v: "case r of
         Inr (u', f') \<Rightarrow> u' = 0 + length (filter is_ok ls) \<and> f' = 0 + length (filter is_fail ls)
       | Inl m \<Rightarrow> m = ''PermissionError'' \<and> (\<exists>x\<in>set (rglob e d). snd x = Denied)"
    by (elim exE conjE)
  have run: "upload_directory e d w = (r, w')"
    using s by (simp add: upload_directory_def io_bind_def print_def)
  have c': "console w' = console w @ LStart d # ls" using c by simp
  have r': "sent w' = sent w @ rs" using rr by simp
  have v': "case r of
         Inr (u, f) \<Rightarrow> u = length (filter is_ok ls) \<and> f = length (filter is_fail ls)
       | Inl m \<Rightarrow> m = ''PermissionError'' \<and> (\<exists>x\<in>set (rglob e d). snd x = Denied)"
    using v by (cases r) auto
  from run c' r' k v' show ?thesis by blast
qed


section \<open>The count of outcomes\<close>





lemma create_bucket_run:
  "create_bucket e w =
     (Inr (), w\<lparr>sent := sent w @ [PostBucket],
               console := console w @ [LCheckBucket, bucket_line (net e (length (sent w)))]\<rparr>)"
  by (simp add: create_bucket_def io_try_def io_bind_def print_def http_def Let_def
      split: reply.splits)

lemma main_missing:
  assumes "\<not> os_path_exists e dist_dir"
  shows "main e w = (Inr 1, w\<lparr>sent := sent w @ [PostBucket],
     console := console w
       @ [LBanner, LCheckBucket, bucket_line (net e (length (sent w))), LDistMissing dist_dir]\<rparr>)"
  using assms
  by (simp add: main_def io_bind_def print_def create_bucket_run io_return_def)

lemma bare_missing: "\<not> os_path_exists bare_env dist_dir"
  by (simp add: os_path_exists_def bare_env_def dist_dir_def)



lemma main_present:
  assumes "os_path_exists e dist_dir"
  shows "\<exists>r w2 ls rs.
     upload_directory e dist_dir
       (w\<lparr>sent := sent w @ [PostBucket],
          console := console w @ [LBanner, LCheckBucket, bucket_line (net e (length (sent w)))]\<rparr>)
       = (r, w2)
   \<and> console w2 = console w @ [LBanner, LCheckBucket, bucket_line (net e (length (sent w))),
        LStart dist_dir] @ ls
   \<and> sent w2 = sent w @ PostBucket # rs
   \<and> (case r of
         Inr (u, f) \<Rightarrow>
           main e w = (Inr (if f = 0 then 0 else 1),
             w2\<lparr>console := console w2 @ LDone u # (if f > 0 then [LFailed f] else []) @ [LUrl]\<rparr>)
           \<and> u = length (filter is_ok ls) \<and> f = length (filter is_fail ls)
       | Inl m \<Rightarrow> main e w = (Inl m, w2))
   \<and> ((\<forall>x\<in>set (rglob e dist_dir). snd x \<noteq> Denied) \<longrightarrow>
         (\<exists>u f. r = Inr (u, f)
            \<and> length (filter is_uploading ls)
                = length (filter (\<lambda>x. regular (snd x)) (rglob e dist_dir))))"
proof -
  let ?w1 = "w\<lparr>sent := sent w @ [PostBucket],
          console := console w @ [LBanner, LCheckBucket, bucket_line (net e (length (sent w)))]\<rparr>"
  from upload_directory_partial [of e dist_dir ?w1]
  obtain r and w2 :: world and ls rs where w2: "upload_directory e dist_dir ?w1 = (r, w2)"
    and c: "console w2 = console ?w1 @ LStart dist_dir # ls" and rr: "sent w2 = sent ?w1 @ rs"
    and v: "case r of
         Inr (u, f) \<Rightarrow> u = length (filter is_ok ls) \<and> f = length (filter is_fail ls)
       | Inl m \<Rightarrow> m = ''PermissionError'' \<and> (\<exists>x\<in>set (rglob e dist_dir). snd x = Denied)"
    by (elim exE conjE)
  have c': "console w2 = console w @ [LBanner, LCheckBucket, bucket_line (net e (length (sent w))),
        LStart dist_dir] @ ls"
    using c by simp
  have r': "sent w2 = sent w @ PostBucket # rs"
    using rr by simp
  have m: "case r of
         Inr (u, f) \<Rightarrow>
           main e w = (Inr (if f = 0 then 0 else 1),
             w2\<lparr>console := console w2 @ LDone u # (if f > 0 then [LFailed f] else []) @ [LUrl]\<rparr>)
           \<and> u = length (filter is_ok ls) \<and> f = length (filter is_fail ls)
       | Inl m \<Rightarrow> main e w = (Inl m, w2)"
  proof (cases r)
    case (Inl m)
    with assms w2 show ?thesis
      by (simp add: main_def io_bind_def print_def io_return_def create_bucket_run)
  next
    case (Inr p)
    obtain u f where p: "p = (u, f)" by (cases p)
    from assms w2 v show ?thesis
      by (simp add: Inr p main_def io_bind_def print_def io_return_def create_bucket_run)
  qed
  have t: "(\<forall>x\<in>set (rglob e dist_dir). snd x \<noteq> Denied) \<longrightarrow>
         (\<exists>u f. r = Inr (u, f)
            \<and> length (filter is_uploading ls)
                = length (filter (\<lambda>x. regular (snd x)) (rglob e dist_dir)))"
  proof
    assume nd: "\<forall>x\<in>set (rglob e dist_dir). snd x \<noteq> Denied"
    from upload_directory_run [OF nd, of ?w1]
    obtain u f and w' :: world and ls' where
      "upload_directory e dist_dir ?w1 = (Inr (u, f), w')"
      and "console w' = console ?w1 @ LStart dist_dir # ls'"
      and "length (filter is_uploading ls')
                = length (filter (\<lambda>x. regular (snd x)) (rglob e dist_dir))"
      by (elim exE conjE)
    with w2 c show "\<exists>u f. r = Inr (u, f)
            \<and> length (filter is_uploading ls)
                = length (filter (\<lambda>x. regular (snd x)) (rglob e dist_dir))"
      by auto
  qed
  show ?thesis
    by (rule exI [of _ r], rule exI [of _ w2], rule exI [of _ ls], rule exI [of _ rs])
       (intro conjI w2 c' r' m t)
qed

lemma denied_iff: "is_file n \<noteq> Inl ''PermissionError'' \<longleftrightarrow> n \<noteq> Denied"
  by (cases n) simp_all



section \<open>A missing root directory\<close>

text \<open>
  Claim C2, as stated: when the root directory does not exist, the program makes no
  network call at all. It does make one: \<open>main\<close> calls \<open>create_bucket\<close> first and
  looks for the directory afterwards. On a machine without the directory, a run that
  starts with no request sent ends with the bucket creation sent.
\<close>

theorem main_missing_root_counterexample:
  "\<not> os_path_exists bare_env dist_dir
   \<and> sent world0 = [] \<and> sent (snd (main bare_env world0)) = [PostBucket]"
  by (simp add: main_missing [OF bare_missing] bare_missing world0_def)

text \<open>
  Claim C2, amended: when the root directory does not exist, the only network call of
  the run is the bucket creation request that \<open>main\<close> sends first; no delete or upload
  request is sent and the bucket's objects are untouched, no traversal starts, the
  missing directory is reported, and the process exits with status 1.
\<close>

theorem main_missing_root:
  assumes "\<not> os_path_exists e dist_dir"
  shows "main e w =
      (Inr 1, w\<lparr>sent := sent w @ [PostBucket],
                console := console w @ [LBanner, LCheckBucket,
                  bucket_line (net e (length (sent w))), LDistMissing dist_dir]\<rparr>)
    \<and> exit_code e w = 1"
  by (simp add: main_missing [OF assms] exit_code_def)

theorem main_missing_root_witness:
  "\<not> os_path_exists bare_env dist_dir
   \<and> main bare_env world0 =
       (Inr 1, \<lparr>sent = [PostBucket], store = Map.empty,
                console = [LBanner, LCheckBucket, LBucketCreated, LDistMissing dist_dir]\<rparr>)
   \<and> exit_code bare_env world0 = 1"
  using main_missing_root [OF bare_missing, of world0] bare_missing
  by (simp add: world0_def bare_env_def)

section \<open>The exit code\<close>



section \<open>The bucket creation\<close>

text \<open>
  Claim C9. Whatever status the bucket creation request is answered with,
  \<open>create_bucket\<close> returns normally. For 409 it prints that the bucket exists, for a
  status other than 200, 201 and 409 it prints a warning with the status. In both
  cases the run goes on: when the root directory exists \<open>main\<close> starts the traversal
  from the world that \<open>create_bucket\<close> leaves, and its result is the traversal's: 0
  or 1 according to the failed uploads only, or the exception that the traversal
  raises. Where \<open>is_file\<close> can read the status of every entry, the traversal
  announces every regular file and returns its counts.
\<close>

theorem create_bucket_conflict_proceeds:
  assumes "os_path_exists e dist_dir" and "net e (length (sent w)) = Resp c t"
  shows "\<exists>w1 r w2 ls.
     create_bucket e (snd (print LBanner w)) = (Inr (), w1)
   \<and> console w1 = console w @ [LBanner, LCheckBucket,
        if c = 200 \<or> c = 201 then LBucketCreated
        else if c = 409 then LBucketExists else LBucketStatus c]
   \<and> upload_directory e dist_dir w1 = (r, w2)
   \<and> console w2 = console w1 @ LStart dist_dir # ls
   \<and> (case r of
         Inr (uploaded, failed) \<Rightarrow>
           main e w = (Inr (if failed = 0 then 0 else 1),
             w2\<lparr>console := console w2
                   @ LDone uploaded # (if failed > 0 then [LFailed failed] else []) @ [LUrl]\<rparr>)
       | Inl m \<Rightarrow> main e w = (Inl m, w2))
   \<and> ((\<forall>x\<in>set (rglob e dist_dir). is_file (snd x) \<noteq> Inl ''PermissionError'') \<longrightarrow>
        (\<exists>uploaded failed. r = Inr (uploaded, failed)
           \<and> length (filter is_uploading ls)
               = length (filter (\<lambda>x. regular (snd x)) (rglob e dist_dir))))"
proof -
  let ?w1 = "w\<lparr>sent := sent w @ [PostBucket],
          console := console w @ [LBanner, LCheckBucket, bucket_line (net e (length (sent w)))]\<rparr>"
  from main_present [OF assms(1), of w] obtain r and w2 :: world and ls where
    r: "upload_directory e dist_dir ?w1 = (r, w2)"
    and c: "console w2 = console w @ [LBanner, LCheckBucket, bucket_line (net e (length (sent w))),
        LStart dist_dir] @ ls"
    and m: "case r of
         Inr (u, f) \<Rightarrow>
           main e w = (Inr (if f = 0 then 0 else 1),
             w2\<lparr>console := console w2 @ LDone u # (if f > 0 then [LFailed f] else []) @ [LUrl]\<rparr>)
           \<and> u = length (filter is_ok ls) \<and> f = length (filter is_fail ls)
       | Inl m \<Rightarrow> main e w = (Inl m, w2)"
    and t: "(\<forall>x\<in>set (rglob e dist_dir). snd x \<noteq> Denied) \<longrightarrow>
         (\<exists>u f. r = Inr (u, f)
            \<and> length (filter is_uploading ls)
                = length (filter (\<lambda>x. regular (snd x)) (rglob e dist_dir)))"
    by (elim exE conjE)
  have w1: "create_bucket e (snd (print LBanner w)) = (Inr (), ?w1)"
    by (simp add: print_def create_bucket_run)
  have c1: "console ?w1 = console w @ [LBanner, LCheckBucket,
        if c = 200 \<or> c = 201 then LBucketCreated
        else if c = 409 then LBucketExists else LBucketStatus c]"
    by (simp add: assms(2))
  have c2: "console w2 = console ?w1 @ LStart dist_dir # ls"
    by (simp add: c)
  have m': "case r of
         Inr (uploaded, failed) \<Rightarrow>
           main e w = (Inr (if failed = 0 then 0 else 1),
             w2\<lparr>console := console w2
                   @ LDone uploaded # (if failed > 0 then [LFailed failed] else []) @ [LUrl]\<rparr>)
       | Inl m \<Rightarrow> main e w = (Inl m, w2)"
    using m by (cases r) auto
  have t': "(\<forall>x\<in>set (rglob e dist_dir). is_file (snd x) \<noteq> Inl ''PermissionError'') \<longrightarrow>
        (\<exists>uploaded failed. r = Inr (uploaded, failed)
           \<and> length (filter is_uploading ls)
               = length (filter (\<lambda>x. regular (snd x)) (rglob e dist_dir)))"
    using t by (simp add: denied_iff)
  show ?thesis
    by (rule exI [of _ ?w1], rule exI [of _ r], rule exI [of _ w2], rule exI [of _ ls])
       (intro conjI w1 c1 r c2 m' t')
qed

theorem create_bucket_conflict_proceeds_witness:
  "os_path_exists (site_env (\<lambda>n. if n = 0 then Resp 409 ''Duplicate'' else Resp 200 [])) dist_dir
   \<and> (\<exists>w'. main (site_env (\<lambda>n. if n = 0 then Resp 409 ''Duplicate'' else Resp 200 [])) world0
          = (Inr 0, w')
        \<and> take 4 (console w') = [LBanner, LCheckBucket, LBucketExists, LStart dist_dir])"
proof -
  define e where "e = site_env (\<lambda>n. if n = 0 then Resp 409 ''Duplicate'' else Resp 200 [])"
  have h: "os_path_exists e dist_dir"
    by (simp add: e_def os_path_exists_def site_env_def lookup_at_dist site_def)
  have r: "net e (length (sent world0)) = Resp 409 ''Duplicate''"
    by (simp add: e_def site_env_def world0_def)
  have x: "fst (main e world0) = Inr 0"
    unfolding e_def
    by (simp add: main_def io_bind_def print_def io_return_def create_bucket_run
       os_path_exists_def site_env_def lookup_at_dist world0_def upload_directory_def
       rglob_def site_def loop_body_def relative_to_def dist_dir_def remote_key_def
       str_path_def replace_def upload_file_def delete_file_run io_try_def open_rb_def
       at_dist_def http_def Let_def)
  from create_bucket_conflict_proceeds [OF h r]
  obtain w1 :: world and rr :: "string + nat \<times> nat" and w2 :: world and ls where
    c1: "console w1 = console world0 @ [LBanner, LCheckBucket,
        if (409::int) = 200 \<or> (409::int) = 201 then LBucketCreated
        else if (409::int) = 409 then LBucketExists else LBucketStatus 409]"
    and c2: "console w2 = console w1 @ LStart dist_dir # ls"
    and m: "case rr of
         Inr (uploaded, failed) \<Rightarrow>
           main e world0 = (Inr (if failed = 0 then 0 else 1),
             w2\<lparr>console := console w2
                   @ LDone uploaded # (if failed > 0 then [LFailed failed] else []) @ [LUrl]\<rparr>)
       | Inl m \<Rightarrow> main e world0 = (Inl m, w2)"
    by (elim exE conjE)
  from m x obtain uploaded where
    mm: "main e world0 = (Inr 0, w2\<lparr>console := console w2 @ [LDone uploaded, LUrl]\<rparr>)"
    by (cases rr) (auto split: if_splits)
  moreover have "take 4 (console (w2\<lparr>console := console w2 @ [LDone uploaded, LUrl]\<rparr>))
      = [LBanner, LCheckBucket, LBucketExists, LStart dist_dir]"
    by (simp add: c1 c2 world0_def)
  ultimately show ?thesis
    using h unfolding e_def by blast
qed

section \<open>The outcome of one upload\<close>

lemma str_int_500: "str_int 500 = ''500''"
  by code_simp

lemma str_int_204: "str_int 204 = ''204''"
  by code_simp

lemma upload_file_total:
  "\<exists>ok err w'. upload_file e lp rp w = (Inr (ok, err), w')"
proof (cases "\<exists>b. lookup (fs e) lp = Some (File b)")
  case True
  then obtain b where "lookup (fs e) lp = Some (File b)" by blast
  from upload_file_readable [OF this, of rp w] show ?thesis
    by (cases "put_outcome (net e (Suc (length (sent w))))") simp
next
  case False
  then have "\<forall>b. lookup (fs e) lp \<noteq> Some (File b)" by blast
  from upload_file_unreadable [OF this, of rp w] show ?thesis by blast
qed

lemma upload_file_success_iff:
  "fst (upload_file e lp rp w) = Inr (True, None) \<longleftrightarrow>
     (\<exists>b c t. lookup (fs e) lp = Some (File b)
        \<and> net e (Suc (length (sent w))) = Resp c t \<and> (c = 200 \<or> c = 201))"
proof (cases "\<exists>b. lookup (fs e) lp = Some (File b)")
  case True
  then obtain b where b: "lookup (fs e) lp = Some (File b)" by blast
  show ?thesis
    by (cases "net e (Suc (length (sent w)))") (simp_all add: upload_file_readable [OF b] b)
next
  case False
  then have nb: "\<forall>b. lookup (fs e) lp \<noteq> Some (File b)" by blast
  from upload_file_unreadable [OF nb, of rp w] obtain m where
    "fst (upload_file e lp rp w) = Inr (False, Some m)" by force
  with False show ?thesis by simp
qed

lemma index_readable: "lookup (fs (site_env r)) index_path = Some (File ''<html>'')"
  by (simp add: site_env_def at_dist_def site_def index_path_def dist_dir_def)

lemma loop_body_readable:
  assumes "regular n" and "take (length d) fp = d" and "lookup (fs e) fp = Some (File b)"
  shows "loop_body e d (fp, n) (u, f) w =
     (Inr (if fst (put_outcome (net e (Suc (length (sent w))))) then (u + 1, f) else (u, f + 1)),
      w\<lparr>console := console w @
           [LUploading (remote_key (sep e) (drop (length d) fp)),
            if fst (put_outcome (net e (Suc (length (sent w))))) then LOk
            else LFail (snd (put_outcome (net e (Suc (length (sent w))))))],
        sent := sent w @ [DeleteObject (remote_key (sep e) (drop (length d) fp)),
                  PostObject (remote_key (sep e) (drop (length d) fp)) (mime_of e fp) b],
        store := serve (PostObject (remote_key (sep e) (drop (length d) fp)) (mime_of e fp) b)
                   (net e (Suc (length (sent w))))
                   (serve (DeleteObject (remote_key (sep e) (drop (length d) fp)))
                      (net e (length (sent w))) (store w))\<rparr>)"
proof -
  obtain ok err where oc: "put_outcome (net e (Suc (length (sent w)))) = (ok, err)"
    by (cases "put_outcome (net e (Suc (length (sent w))))")
  show ?thesis
    using assms(1,2) oc
    by (cases ok)
       (simp_all add: loop_body_def relative_to_def Let_def io_bind_def print_def
          upload_file_readable [OF assms(3)] io_return_def is_file_regular)
qed

text \<open>
  Claim C3, as stated: \<open>upload_file\<close> succeeds for any 2xx status of the post
  request. The code accepts 200 and 201 only: a post answered with 204 gives a failed
  outcome, with the reason built from the status.
\<close>

theorem upload_file_status_counterexample:
  "fst (upload_file (site_env (\<lambda>n. Resp 204 [])) index_path ''index.html'' world0)
     = Inr (False, Some ''HTTP 204: '')"
proof -
  have "fst (upload_file (site_env (\<lambda>n. Resp 204 [])) index_path ''index.html'' world0)
     = Inr (put_outcome (net (site_env (\<lambda>n. Resp 204 [])) (Suc (length (sent world0)))))"
    by (simp add: upload_file_readable [OF index_readable])
  moreover have "net (site_env (\<lambda>n. Resp 204 [])) (Suc (length (sent world0))) = Resp 204 []"
    by (simp add: site_env_def)
  ultimately show ?thesis
    by (simp add: str_int_204)
qed

text \<open>
  Claim C3, amended: \<open>upload_file\<close> returns success exactly when the file can be read
  and the post request is answered with status 200 or 201. When the post is answered
  with any other status, it returns failure with the reason \<open>HTTP\<close>, the status code,
  a colon and the first 100 characters of the response text. In particular a post
  answered with 500 gives a failure whose reason contains \<open>500\<close>.
\<close>

theorem upload_file_status:
  "(fst (upload_file e lp rp w) = Inr (True, None) \<longleftrightarrow>
      (\<exists>b c t. lookup (fs e) lp = Some (File b)
         \<and> net e (Suc (length (sent w))) = Resp c t \<and> (c = 200 \<or> c = 201)))
   \<and> (\<forall>b c t. lookup (fs e) lp = Some (File b)
         \<and> net e (Suc (length (sent w))) = Resp c t \<and> c \<noteq> 200 \<and> c \<noteq> 201
       \<longrightarrow> fst (upload_file e lp rp w)
             = Inr (False, Some (''HTTP '' @ str_int c @ '': '' @ take 100 t)))
   \<and> (\<forall>b t. lookup (fs e) lp = Some (File b)
         \<and> net e (Suc (length (sent w))) = Resp 500 t
       \<longrightarrow> (\<exists>reason. fst (upload_file e lp rp w) = Inr (False, Some reason)
             \<and> sublist ''500'' reason \<and> length reason \<le> 110))"
proof (intro conjI allI impI)
  show "fst (upload_file e lp rp w) = Inr (True, None) \<longleftrightarrow>
      (\<exists>b c t. lookup (fs e) lp = Some (File b)
         \<and> net e (Suc (length (sent w))) = Resp c t \<and> (c = 200 \<or> c = 201))"
    by (rule upload_file_success_iff)
next
  fix b c t
  assume a: "lookup (fs e) lp = Some (File b)
         \<and> net e (Suc (length (sent w))) = Resp c t \<and> c \<noteq> 200 \<and> c \<noteq> 201"
  then have b: "lookup (fs e) lp = Some (File b)" by simp
  show "fst (upload_file e lp rp w)
             = Inr (False, Some (''HTTP '' @ str_int c @ '': '' @ take 100 t))"
    using a by (simp add: upload_file_readable [OF b])
next
  fix b t
  assume a: "lookup (fs e) lp = Some (File b) \<and> net e (Suc (length (sent w))) = Resp 500 t"
  then have b: "lookup (fs e) lp = Some (File b)" by simp
  have r: "fst (upload_file e lp rp w) = Inr (False, Some (''HTTP 500: '' @ take 100 t))"
    using a by (simp add: upload_file_readable [OF b] str_int_500)
  have s: "sublist ''500'' (''HTTP 500: '' @ take 100 t)"
    unfolding sublist_def
    by (rule exI [of _ "''HTTP ''"], rule exI [of _ "'': '' @ take 100 t"]) simp
  have l: "length (''HTTP 500: '' @ take 100 t) \<le> 110" by simp
  from r s l show "\<exists>reason. fst (upload_file e lp rp w) = Inr (False, Some reason)
             \<and> sublist ''500'' reason \<and> length reason \<le> 110"
    by blast
qed

theorem upload_file_status_witness:
  "lookup (fs (site_env (\<lambda>n. Resp 500 ''Internal Server Error''))) index_path
     = Some (File ''<html>'')
   \<and> net (site_env (\<lambda>n. Resp 500 ''Internal Server Error'')) (Suc (length (sent world0)))
     = Resp 500 ''Internal Server Error''
   \<and> fst (upload_file (site_env (\<lambda>n. Resp 500 ''Internal Server Error'')) index_path
           ''index.html'' world0)
     = Inr (False, Some ''HTTP 500: Internal Server Error'')"
proof -
  define e where "e = site_env (\<lambda>n. Resp 500 ''Internal Server Error'')"
  have b: "lookup (fs e) index_path = Some (File ''<html>'')"
    unfolding e_def by (rule index_readable)
  have n: "net e (Suc (length (sent world0))) = Resp 500 ''Internal Server Error''"
    by (simp add: e_def site_env_def)
  have "(500::int) \<noteq> 200 \<and> (500::int) \<noteq> 201" by simp
  with upload_file_status [of e index_path "''index.html''" world0] b n
  have "fst (upload_file e index_path ''index.html'' world0)
     = Inr (False, Some (''HTTP '' @ str_int 500 @ '': '' @ take 100 ''Internal Server Error''))"
    by blast
  then have "fst (upload_file e index_path ''index.html'' world0)
     = Inr (False, Some ''HTTP 500: Internal Server Error'')"
    by (simp add: str_int_500)
  with b n show ?thesis unfolding e_def by simp
qed

section \<open>Exceptions during an upload\<close>

lemma is_file_True: "is_file n = Inr True \<Longrightarrow> regular n"
  by (cases n) simp_all

text \<open>
  Claim C6. No exception leaves \<open>upload_file\<close>. When the post request of a file of
  the traversal raises an exception with message \<open>m\<close>, \<open>upload_file\<close> returns
  failure with the reason \<open>m\<close>, the loop prints the failure, counts it, and goes on
  with the remaining entries; it processes all of them when \<open>is_file\<close> can read
  their status.
\<close>

theorem upload_exception_is_failure:
  assumes "is_file n = Inr True" and "take (length d) fp = d"
    and "lookup (fs e) fp = Some (File b)"
    and "net e (Suc (length (sent w))) = Exn m"
  shows "(\<exists>ok err w'. upload_file e fp rp w = (Inr (ok, err), w'))
   \<and> fst (upload_file e fp rp w) = Inr (False, Some m)
   \<and> (\<exists>w1. loop_body e d (fp, n) (u, f) w = (Inr (u, f + 1), w1)
        \<and> console w1 = console w
             @ [LUploading (remote_key (sep e) (drop (length d) fp)), LFail (Some m)]
        \<and> upload_loop e d ((fp, n) # rest) (u, f) w = upload_loop e d rest (u, f + 1) w1
        \<and> ((\<forall>x\<in>set rest. take (length d) (fst x) = d
                \<and> is_file (snd x) \<noteq> Inl ''PermissionError'') \<longrightarrow>
             (\<exists>u' f' w'. upload_loop e d ((fp, n) # rest) (u, f) w = (Inr (u', f'), w')
                \<and> u' + f' = u + f + 1 + length (filter (\<lambda>x. regular (snd x)) rest))))"
proof (intro conjI)
  have reg: "regular n" using assms(1) by (rule is_file_True)
  show "\<exists>ok err w'. upload_file e fp rp w = (Inr (ok, err), w')"
    by (rule upload_file_total)
  show "fst (upload_file e fp rp w) = Inr (False, Some m)"
    by (simp add: upload_file_readable [OF assms(3)] assms(4))
  let ?k = "remote_key (sep e) (drop (length d) fp)"
  let ?w1 = "w\<lparr>console := console w @ [LUploading ?k, LFail (Some m)],
        sent := sent w @ [DeleteObject ?k, PostObject ?k (mime_of e fp) b],
        store := serve (PostObject ?k (mime_of e fp) b) (Exn m)
                   (serve (DeleteObject ?k) (net e (length (sent w))) (store w))\<rparr>"
  have lb: "loop_body e d (fp, n) (u, f) w = (Inr (u, f + 1), ?w1)"
    by (simp add: loop_body_readable [OF reg assms(2,3)] assms(4))
  have c: "console ?w1 = console w @ [LUploading ?k, LFail (Some m)]"
    by simp
  have st: "upload_loop e d ((fp, n) # rest) (u, f) w = upload_loop e d rest (u, f + 1) ?w1"
    by (simp add: io_bind_def lb)
  have cont: "(\<forall>x\<in>set rest. take (length d) (fst x) = d
                \<and> is_file (snd x) \<noteq> Inl ''PermissionError'') \<longrightarrow>
             (\<exists>u' f' w'. upload_loop e d ((fp, n) # rest) (u, f) w = (Inr (u', f'), w')
                \<and> u' + f' = u + f + 1 + length (filter (\<lambda>x. regular (snd x)) rest))"
  proof
    assume a: "\<forall>x\<in>set rest. take (length d) (fst x) = d
                \<and> is_file (snd x) \<noteq> Inl ''PermissionError''"
    then have pre: "\<forall>x\<in>set rest. take (length d) (fst x) = d"
      and nd: "\<forall>x\<in>set rest. snd x \<noteq> Denied"
      by (auto simp add: denied_iff)
    from upload_loop_run [OF pre nd, of e u "f + 1" ?w1]
    obtain u' f' w' where "upload_loop e d rest (u, f + 1) ?w1 = (Inr (u', f'), w')"
      and "u' + f' = u + (f + 1) + length (filter (\<lambda>x. regular (snd x)) rest)"
      by (elim exE conjE)
    then show "\<exists>u' f' w'. upload_loop e d ((fp, n) # rest) (u, f) w = (Inr (u', f'), w')
                \<and> u' + f' = u + f + 1 + length (filter (\<lambda>x. regular (snd x)) rest)"
      unfolding st by (intro exI [of _ u'] exI [of _ f'] exI [of _ w']) simp
  qed
  from lb c st cont
  show "\<exists>w1. loop_body e d (fp, n) (u, f) w = (Inr (u, f + 1), w1)
        \<and> console w1 = console w
             @ [LUploading (remote_key (sep e) (drop (length d) fp)), LFail (Some m)]
        \<and> upload_loop e d ((fp, n) # rest) (u, f) w = upload_loop e d rest (u, f + 1) w1
        \<and> ((\<forall>x\<in>set rest. take (length d) (fst x) = d
                \<and> is_file (snd x) \<noteq> Inl ''PermissionError'') \<longrightarrow>
             (\<exists>u' f' w'. upload_loop e d ((fp, n) # rest) (u, f) w = (Inr (u', f'), w')
                \<and> u' + f' = u + f + 1 + length (filter (\<lambda>x. regular (snd x)) rest)))"
    by (intro exI [of _ ?w1] conjI)
qed

theorem upload_exception_is_failure_witness:
  "is_file (File ''<html>'') = Inr True \<and> take (length dist_dir) index_path = dist_dir
   \<and> lookup (fs (site_env (\<lambda>n. if n = 1 then Exn ''timed out'' else Resp 200 []))) index_path
       = Some (File ''<html>'')
   \<and> net (site_env (\<lambda>n. if n = 1 then Exn ''timed out'' else Resp 200 []))
        (Suc (length (sent world0))) = Exn ''timed out''
   \<and> fst (upload_file (site_env (\<lambda>n. if n = 1 then Exn ''timed out'' else Resp 200 []))
           index_path ''index.html'' world0) = Inr (False, Some ''timed out'')"
proof -
  define e where "e = site_env (\<lambda>n. if n = 1 then Exn ''timed out'' else Resp 200 [])"
  have h1: "is_file (File ''<html>'') = Inr True" by simp
  have h2: "take (length dist_dir) index_path = dist_dir"
    by (simp add: index_path_def)
  have h3: "lookup (fs e) index_path = Some (File ''<html>'')"
    unfolding e_def by (rule index_readable)
  have h4: "net e (Suc (length (sent world0))) = Exn ''timed out''"
    by (simp add: e_def site_env_def world0_def)
  from upload_exception_is_failure [OF h1 h2 h3 h4, of "''index.html''" 0 0 "[]"]
  have "fst (upload_file e index_path ''index.html'' world0) = Inr (False, Some ''timed out'')"
    by (elim conjE)
  with h1 h2 h3 h4 show ?thesis unfolding e_def by simp
qed

section \<open>The delete before the put\<close>

text \<open>
  Claim C8. \<open>delete_file\<close> never raises. \<open>upload_file\<close> sends the delete of the
  remote key first and then, when the file can be opened, the post of the file's
  content to the same key with the content type found for the path, and nothing else;
  a file that cannot be opened gets no post. For a file that can be opened the outcome
  is the one that the reply to the post gives, so the outcome does not depend on the
  reply to the delete: with any other reply \<open>r\<close> in its place, response or exception,
  the outcome is the same.
\<close>

theorem delete_precedes_put:
  "fst (delete_file e rp w) = Inr ()
   \<and> sent (snd (upload_file e lp rp w))
       = sent w @ DeleteObject rp
           # (case lookup (fs e) lp of
                Some (File b) \<Rightarrow> [PostObject rp (mime_of e lp) b]
              | _ \<Rightarrow> [])
   \<and> (case lookup (fs e) lp of
         Some (File b) \<Rightarrow>
           fst (upload_file e lp rp w) = Inr (put_outcome (net e (Suc (length (sent w)))))
       | _ \<Rightarrow> (\<exists>m. fst (upload_file e lp rp w) = Inr (False, Some m)))
   \<and> fst (upload_file (e\<lparr>net := (net e)(length (sent w) := r)\<rparr>) lp rp w)
       = fst (upload_file e lp rp w)"
proof (cases "\<exists>b. lookup (fs e) lp = Some (File b)")
  case True
  then obtain b where b: "lookup (fs e) lp = Some (File b)" by blast
  then have b': "lookup (fs (e\<lparr>net := (net e)(length (sent w) := r)\<rparr>)) lp = Some (File b)"
    by simp
  have mm: "mime_of (e\<lparr>net := (net e)(length (sent w) := r)\<rparr>) lp = mime_of e lp"
    by (simp add: mime_of_def)
  show ?thesis
    by (simp add: delete_file_run upload_file_readable [OF b] upload_file_readable [OF b'] b)
next
  case False
  then have nb: "\<forall>b. lookup (fs e) lp \<noteq> Some (File b)" by blast
  have same: "fst (upload_file (e\<lparr>net := (net e)(length (sent w) := r)\<rparr>) lp rp w)
       = fst (upload_file e lp rp w)"
    using nb
    by (simp add: upload_file_def delete_file_run io_try_def io_bind_def io_return_def
        io_raise_def open_rb_def Let_def split: option.splits node.splits)
  from upload_file_unreadable [OF nb, of rp w] obtain m where
    u: "upload_file e lp rp w = (Inr (False, Some m),
      w\<lparr>sent := sent w @ [DeleteObject rp],
        store := serve (DeleteObject rp) (net e (length (sent w))) (store w)\<rparr>)"
    by (elim exE)
  have s1: "(case lookup (fs e) lp of
                Some (File b) \<Rightarrow> [PostObject rp (mime_of e lp) b]
              | _ \<Rightarrow> []) = []"
    using nb by (simp split: option.splits node.splits)
  have s2: "(case lookup (fs e) lp of
         Some (File b) \<Rightarrow>
           fst (upload_file e lp rp w) = Inr (put_outcome (net e (Suc (length (sent w)))))
       | _ \<Rightarrow> (\<exists>m. fst (upload_file e lp rp w) = Inr (False, Some m)))"
    using nb u by (simp split: option.splits node.splits)
  have s3: "sent (snd (upload_file e lp rp w)) = sent w @ [DeleteObject rp]"
    by (simp add: u)
  show ?thesis
    by (intro conjI) (simp_all add: delete_file_run s1 s2 s3 same)
qed

text \<open>
  The delete raises and the post is answered with 200: the upload succeeds, with the
  delete and then the post sent.
\<close>

theorem delete_precedes_put_witness:
  "fst (upload_file (site_env (\<lambda>n. if n = 0 then Exn ''reset'' else Resp 200 []))
          index_path ''index.html'' world0) = Inr (True, None)
   \<and> sent (snd (upload_file (site_env (\<lambda>n. if n = 0 then Exn ''reset'' else Resp 200 []))
          index_path ''index.html'' world0))
       = [DeleteObject ''index.html'',
          PostObject ''index.html'' ''application/octet-stream'' ''<html>'']"
proof -
  define e where "e = site_env (\<lambda>n. if n = 0 then Exn ''reset'' else Resp 200 [])"
  have b: "lookup (fs e) index_path = Some (File ''<html>'')"
    unfolding e_def by (rule index_readable)
  have n: "net e (Suc (length (sent world0))) = Resp 200 []"
    by (simp add: e_def site_env_def world0_def)
  have mm: "mime_of e index_path = ''application/octet-stream''"
    by (simp add: mime_of_def e_def site_env_def)
  note t = delete_precedes_put [of e "''index.html''" world0 index_path "Exn ''reset''"]
  have s: "sent (snd (upload_file e index_path ''index.html'' world0))
       = sent world0 @ DeleteObject ''index.html''
           # (case lookup (fs e) index_path of
                Some (File b) \<Rightarrow> [PostObject ''index.html'' (mime_of e index_path) b]
              | _ \<Rightarrow> [])"
    by (rule t [THEN conjunct2, THEN conjunct1])
  have o: "case lookup (fs e) index_path of
         Some (File b) \<Rightarrow>
           fst (upload_file e index_path ''index.html'' world0)
             = Inr (put_outcome (net e (Suc (length (sent world0)))))
       | _ \<Rightarrow> (\<exists>m. fst (upload_file e index_path ''index.html'' world0) = Inr (False, Some m))"
    by (rule t [THEN conjunct2, THEN conjunct2, THEN conjunct1])
  from o have "fst (upload_file e index_path ''index.html'' world0) = Inr (True, None)"
    by (simp add: b n)
  moreover from s have "sent (snd (upload_file e index_path ''index.html'' world0))
       = [DeleteObject ''index.html'',
          PostObject ''index.html'' ''application/octet-stream'' ''<html>'']"
    by (simp add: b mm world0_def)
  ultimately show ?thesis unfolding e_def by simp
qed

section \<open>The remote key\<close>











section \<open>Running the traversal twice\<close>

lemma loop_body_unreadable:
  assumes "regular n" and "take (length d) fp = d"
    and "\<forall>b. lookup (fs e) fp \<noteq> Some (File b)"
  shows "\<exists>m. loop_body e d (fp, n) (u, f) w =
     (Inr (u, f + 1),
      w\<lparr>console := console w @
           [LUploading (remote_key (sep e) (drop (length d) fp)), LFail (Some m)],
        sent := sent w @ [DeleteObject (remote_key (sep e) (drop (length d) fp))],
        store := serve (DeleteObject (remote_key (sep e) (drop (length d) fp)))
                      (net e (length (sent w))) (store w)\<rparr>)"
proof -
  let ?k = "remote_key (sep e) (drop (length d) fp)"
  let ?w1 = "w\<lparr>console := console w @ [LUploading ?k]\<rparr>"
  from upload_file_unreadable [OF assms(3), of ?k ?w1]
  obtain m where m: "upload_file e fp ?k ?w1 =
     (Inr (False, Some m),
      ?w1\<lparr>sent := sent ?w1 @ [DeleteObject ?k],
        store := serve (DeleteObject ?k) (net e (length (sent ?w1))) (store ?w1)\<rparr>)"
    by (elim exE)
  have "loop_body e d (fp, n) (u, f) w =
     (Inr (u, f + 1),
      w\<lparr>console := console w @ [LUploading ?k, LFail (Some m)],
        sent := sent w @ [DeleteObject ?k],
        store := serve (DeleteObject ?k) (net e (length (sent w))) (store w)\<rparr>)"
    using assms(1,2)
    by (simp add: loop_body_def relative_to_def Let_def io_bind_def print_def m io_return_def
        is_file_regular)
  then show ?thesis by (rule exI)
qed

lemma apply_updates_lookup:
  "apply_updates st us k = (case map_of (rev us) k of Some v \<Rightarrow> v | None \<Rightarrow> st k)"
proof (induction us arbitrary: st)
  case Nil
  show ?case by simp
next
  case (Cons x us)
  obtain k' v' where x: "x = (k', v')" by (cases x)
  show ?case
    by (simp add: x Cons.IH map_add_def split: option.splits)
qed

lemma apply_updates_idem: "apply_updates (apply_updates st us) us = apply_updates st us"
  by (rule ext) (simp add: apply_updates_lookup split: option.splits)

lemma put_accepted:
  "fst (put_outcome r) \<Longrightarrow> serve (PostObject k m b) r st = st(k \<mapsto> b)"
  by (cases r) (auto split: if_splits)

lemma put_over_delete: "(serve (DeleteObject k) r st)(k \<mapsto> b) = st(k \<mapsto> b)"
  by (cases r) simp_all

lemma upload_loop_store:
  assumes "\<forall>x\<in>set es. take (length d) (fst x) = d"
  shows "\<exists>r w' ls.
     upload_loop e d es acc w = (r, w') \<and> console w' = console w @ ls
   \<and> (filter is_fail ls = [] \<longrightarrow>
        store w' = apply_updates (store w) (file_updates e d (processed es)))"
  using assms
proof (induction es arbitrary: acc w)
  case Nil
  show ?case by (simp add: io_return_def file_updates_def processed_def)
next
  case (Cons x es)
  obtain fp n where x: "x = (fp, n)" by (cases x)
  obtain u f where acc: "acc = (u, f)" by (cases acc)
  from Cons.prems have p: "take (length d) fp = d"
    and rest: "\<forall>x\<in>set es. take (length d) (fst x) = d"
    by (simp_all add: x)
  let ?k = "remote_key (sep e) (drop (length d) fp)"
  show ?case
  proof (cases "n = Denied")
    case True
    have "upload_loop e d (x # es) acc w = (Inl ''PermissionError'', w)"
      by (simp add: x acc True io_bind_def loop_body_denied)
    then show ?thesis
      by (simp add: x True processed_def file_updates_def)
  next
    case nd: False
    show ?thesis
    proof (cases "regular n")
      case False
      from Cons.IH [OF rest, of "(u, f)" w]
      obtain r and w' :: world and ls where
        s2: "upload_loop e d es (u, f) w = (r, w')" and c2: "console w' = console w @ ls"
        and v2: "filter is_fail ls = [] \<longrightarrow>
          store w' = apply_updates (store w) (file_updates e d (processed es))"
        by (elim exE conjE)
      have run: "upload_loop e d (x # es) acc w = (r, w')"
        using s2 by (simp add: x acc io_bind_def loop_body_skip [OF nd False])
      have fu: "file_updates e d (processed (x # es)) = file_updates e d (processed es)"
        using nd False by (simp add: x processed_def file_updates_def)
      have v: "filter is_fail ls = [] \<longrightarrow>
          store w' = apply_updates (store w) (file_updates e d (processed (x # es)))"
        using v2 by (simp only: fu)
      show ?thesis
        by (rule exI [of _ r], rule exI [of _ w'], rule exI [of _ ls])
           (intro conjI run c2 v)
    next
      case True
      show ?thesis
      proof (cases "\<exists>b. lookup (fs e) fp = Some (File b)")
        case True
        then obtain b where b: "lookup (fs e) fp = Some (File b)" by blast
        let ?r1 = "net e (Suc (length (sent w)))"
        let ?ok = "fst (put_outcome ?r1)"
        let ?w1 = "w\<lparr>console := console w @
             [LUploading ?k, if ?ok then LOk else LFail (snd (put_outcome ?r1))],
          sent := sent w @ [DeleteObject ?k, PostObject ?k (mime_of e fp) b],
          store := serve (PostObject ?k (mime_of e fp) b) ?r1
                     (serve (DeleteObject ?k) (net e (length (sent w))) (store w))\<rparr>"
        let ?acc = "if ?ok then (u + 1, f) else (u, f + 1)"
        have lb: "loop_body e d (fp, n) (u, f) w = (Inr ?acc, ?w1)"
          by (rule loop_body_readable [OF \<open>regular n\<close> p b])
        from Cons.IH [OF rest, of ?acc ?w1]
        obtain r and w' :: world and ls where
          s2: "upload_loop e d es ?acc ?w1 = (r, w')"
          and c2: "console w' = console ?w1 @ ls"
          and v2: "filter is_fail ls = [] \<longrightarrow>
            store w' = apply_updates (store ?w1) (file_updates e d (processed es))"
          by (elim exE conjE)
        let ?ls = "[LUploading ?k, if ?ok then LOk else LFail (snd (put_outcome ?r1))] @ ls"
        have run: "upload_loop e d (x # es) acc w = (r, w')"
          using s2 by (simp add: x acc io_bind_def lb)
        have c: "console w' = console w @ ?ls"
          using c2 by simp
        have fu: "file_updates e d (processed (x # es))
            = (?k, Some b) # file_updates e d (processed es)"
          using nd \<open>regular n\<close> by (simp add: x processed_def file_updates_def b)
        have v: "filter is_fail ?ls = [] \<longrightarrow>
            store w' = apply_updates (store w) (file_updates e d (processed (x # es)))"
        proof
          assume a: "filter is_fail ?ls = []"
          then have ok: "?ok" by (simp split: if_splits)
          from a have "filter is_fail ls = []" by (simp split: if_splits)
          with v2 have "store w' = apply_updates (store ?w1) (file_updates e d (processed es))"
            by simp
          moreover have "store ?w1 = (store w)(?k \<mapsto> b)"
            by (simp add: put_accepted [OF ok] put_over_delete)
          ultimately show "store w'
              = apply_updates (store w) (file_updates e d (processed (x # es)))"
            by (simp add: fu)
        qed
        show ?thesis
          by (rule exI [of _ r], rule exI [of _ w'], rule exI [of _ ?ls])
             (intro conjI run c v)
      next
        case False
        then have nb: "\<forall>b. lookup (fs e) fp \<noteq> Some (File b)" by blast
        from loop_body_unreadable [OF \<open>regular n\<close> p nb, of u f w]
        obtain m where lb: "loop_body e d (fp, n) (u, f) w =
          (Inr (u, f + 1),
           w\<lparr>console := console w @ [LUploading ?k, LFail (Some m)],
             sent := sent w @ [DeleteObject ?k],
             store := serve (DeleteObject ?k) (net e (length (sent w))) (store w)\<rparr>)"
          by (elim exE)
        let ?w1 = "w\<lparr>console := console w @ [LUploading ?k, LFail (Some m)],
             sent := sent w @ [DeleteObject ?k],
             store := serve (DeleteObject ?k) (net e (length (sent w))) (store w)\<rparr>"
        from Cons.IH [OF rest, of "(u, f + 1)" ?w1]
        obtain r and w' :: world and ls where
          s2: "upload_loop e d es (u, f + 1) ?w1 = (r, w')"
          and c2: "console w' = console ?w1 @ ls"
          by (elim exE conjE)
        let ?ls = "[LUploading ?k, LFail (Some m)] @ ls"
        have run: "upload_loop e d (x # es) acc w = (r, w')"
          using s2 by (simp add: x acc io_bind_def lb)
        have c: "console w' = console w @ ?ls"
          using c2 by simp
        have v: "filter is_fail ?ls = [] \<longrightarrow>
            store w' = apply_updates (store w) (file_updates e d (processed (x # es)))"
          by simp
        show ?thesis
          by (rule exI [of _ r], rule exI [of _ w'], rule exI [of _ ?ls])
             (intro conjI run c v)
      qed
    qed
  qed
qed

lemma upload_directory_store:
  "\<exists>ls. console (snd (upload_directory e d w)) = console w @ LStart d # ls
   \<and> (filter is_fail ls = [] \<longrightarrow>
        store (snd (upload_directory e d w))
          = apply_updates (store w) (file_updates e d (processed (rglob e d))))"
proof -
  let ?w0 = "w\<lparr>console := console w @ [LStart d]\<rparr>"
  from upload_loop_store [OF rglob_prefix [of e d], of e "(0, 0)" ?w0]
  obtain r and w' :: world and ls where
    s: "upload_loop e d (rglob e d) (0, 0) ?w0 = (r, w')"
    and c: "console w' = console ?w0 @ ls"
    and v: "filter is_fail ls = [] \<longrightarrow>
        store w' = apply_updates (store ?w0) (file_updates e d (processed (rglob e d)))"
    by (elim exE conjE)
  have run: "snd (upload_directory e d w) = w'"
    using s by (simp add: upload_directory_def io_bind_def print_def)
  show ?thesis
    using c v by (intro exI [of _ ls]) (simp add: run)
qed

text \<open>
  Claim C5, as stated: a second run over the unchanged directory leaves the bucket as
  the first run left it. When the delete of a key is accepted in the second run and the
  post that follows it times out, the object that the first run stored at the key is
  gone after the second.
\<close>

theorem rerun_same_objects_counterexample:
  "store (snd (upload_directory flaky_env dist_dir world0)) ''index.html'' = Some ''<html>''
   \<and> store (snd (upload_directory flaky_env dist_dir
                   (snd (upload_directory flaky_env dist_dir world0)))) ''index.html'' = None"
  by (simp add: flaky_env_def upload_directory_def io_bind_def print_def io_return_def
       rglob_def world0_def loop_body_def relative_to_def remote_key_def
       str_path_def replace_def upload_file_def delete_file_run io_try_def open_rb_def
       http_def Let_def site_env_def at_dist_def site_def dist_dir_def)

text \<open>
  Claim C5, amended: when no upload fails in either run (every file that the loop
  reaches is opened and its post is answered with 200 or 201, whatever the deletes are
  answered with), a second run of \<open>upload_directory\<close> over the unchanged directory
  leaves the same objects in the bucket as the first run: at each key of a file, the
  content that the last upload to that key stored.
\<close>

theorem rerun_same_objects:
  assumes "length (filter is_fail
             (console (snd (upload_directory e d (snd (upload_directory e d w))))))
           = length (filter is_fail (console w))"
  shows "store (snd (upload_directory e d (snd (upload_directory e d w))))
       = store (snd (upload_directory e d w))
     \<and> store (snd (upload_directory e d w))
       = apply_updates (store w) (file_updates e d (processed (rglob e d)))"
proof -
  let ?w1 = "snd (upload_directory e d w)"
  let ?w2 = "snd (upload_directory e d ?w1)"
  let ?U = "file_updates e d (processed (rglob e d))"
  from upload_directory_store [of e d w] obtain ls1 where
    c1: "console ?w1 = console w @ LStart d # ls1"
    and v1: "filter is_fail ls1 = [] \<longrightarrow> store ?w1 = apply_updates (store w) ?U"
    by (elim exE conjE)
  from upload_directory_store [of e d ?w1] obtain ls2 where
    c2: "console ?w2 = console ?w1 @ LStart d # ls2"
    and v2: "filter is_fail ls2 = [] \<longrightarrow> store ?w2 = apply_updates (store ?w1) ?U"
    by (elim exE conjE)
  from assms have "length (filter is_fail ls1) + length (filter is_fail ls2) = 0"
    by (simp add: c2 c1)
  then have n1: "filter is_fail ls1 = []" and n2: "filter is_fail ls2 = []"
    by simp_all
  from v1 n1 have s1: "store ?w1 = apply_updates (store w) ?U" by simp
  from v2 n2 have "store ?w2 = apply_updates (store ?w1) ?U" by simp
  then have "store ?w2 = store ?w1"
    by (simp add: s1 apply_updates_idem)
  with s1 show ?thesis by simp
qed

lemma fresh_twice_console:
  "console (snd (upload_directory fresh_env dist_dir
     (snd (upload_directory fresh_env dist_dir world0)))) =
   [LStart dist_dir, LUploading ''index.html'', LOk, LUploading ''assets/app.js'', LOk,
    LStart dist_dir, LUploading ''index.html'', LOk, LUploading ''assets/app.js'', LOk]"
  by (simp add: fresh_env_def upload_directory_def io_bind_def print_def io_return_def
       rglob_def world0_def loop_body_def relative_to_def remote_key_def
       str_path_def replace_def upload_file_def delete_file_run io_try_def open_rb_def
       http_def Let_def site_env_def at_dist_def site_def dist_dir_def)

theorem rerun_same_objects_witness:
  "length (filter is_fail (console (snd (upload_directory fresh_env dist_dir
             (snd (upload_directory fresh_env dist_dir world0))))))
     = length (filter is_fail (console world0))
   \<and> store (snd (upload_directory fresh_env dist_dir
         (snd (upload_directory fresh_env dist_dir world0))))
     = store (snd (upload_directory fresh_env dist_dir world0))"
proof -
  have h: "length (filter is_fail (console (snd (upload_directory fresh_env dist_dir
             (snd (upload_directory fresh_env dist_dir world0))))))
     = length (filter is_fail (console world0))"
    by (simp add: fresh_twice_console) (simp add: world0_def)
  from rerun_same_objects [OF h] h show ?thesis
    by (elim conjE) (rule conjI)
qed

section \<open>The deployment script's exit code\<close>

lemma run_command_run:
  "run_command e cmd cwd cap w =
     (Inr (cmd_outcome (shell e (length (executed w))) cap),
      w\<lparr>executed := executed w @ [(cmd, cwd)],
        out := out w @ cmd_logs (shell e (length (executed w)))\<rparr>)"
  by (cases "shell e (length (executed w))")
     (simp_all add: run_command_def io_try_def io_bind_def io_return_def log_info_def
        log_error_def put_def subprocess_run_def Let_def)

lemma deploy_to_zeabur_result:
  "\<exists>w'. deploy_to_zeabur e w = (Inr (False, None), w')"
  by (simp add: deploy_to_zeabur_def io_bind_def io_return_def log_info_def log_error_def
      log_warning_def put_def os_getenv_def path_exists_def run_command_run
      split: prod.splits)

lemma cp_files_total:
  "\<exists>n w'. cp_files e token dist root files k w = (Inr n, w')"
proof (induction files arbitrary: k w)
  case Nil
  show ?case by (simp add: io_return_def)
next
  case (Cons fl files)
  obtain b r where o: "cmd_outcome (shell e (length (executed w))) False = (b, r)"
    by (cases "cmd_outcome (shell e (length (executed w))) False")
  define w1 where "w1 = snd (run_command e
      (cp_command token (os_path_join (abs_str root) fl)
         (join ''/'' (drop (length dist) (root @ [fl])))) None False w)"
  have step: "cp_files e token dist root (fl # files) k w
      = cp_files e token dist root files (if b then k + 1 else k) w1"
    by (simp add: w1_def Let_def io_bind_def run_command_run o)
  from Cons.IH [of "if b then k + 1 else k" w1] show ?case
    unfolding step .
qed

lemma cp_dirs_total:
  "\<exists>n w'. cp_dirs e token dist listing k w = (Inr n, w')"
proof (induction listing arbitrary: k w)
  case Nil
  show ?case by (simp add: io_return_def)
next
  case (Cons x listing)
  obtain root dirs files where x: "x = (root, dirs, files)" by (cases x)
  obtain n w1 where c: "cp_files e token dist root files k w = (Inr n, w1)"
    using cp_files_total by blast
  from Cons.IH [of n w1] show ?case
    by (simp add: x io_bind_def c)
qed

lemma deploy_frontend_result:
  "\<exists>w'. deploy_frontend_to_supabase e w =
     (Inr (truthy (environ w ''SUPABASE_ACCESS_TOKEN'')
           \<and> exists_node (lookup (fs_after e (length (executed w))) (web_dir @ [''dist'']))), w')"
proof (cases "truthy (environ w ''SUPABASE_ACCESS_TOKEN'')
           \<and> exists_node (lookup (fs_after e (length (executed w))) (web_dir @ [''dist'']))")
  case False
  then show ?thesis
    by (auto simp add: deploy_frontend_to_supabase_def io_bind_def io_return_def log_info_def
        log_error_def put_def os_getenv_def path_exists_def Let_def)
next
  case True
  define token where "token = (case environ w ''SUPABASE_ACCESS_TOKEN'' of None \<Rightarrow> [] | Some v \<Rightarrow> v)"
  define w1 where "w1 = snd (run_command e
       (''supabase storage ls --token '' @ token @ '' --project-ref '' @ project_ref)
       None False (w\<lparr>out := out w @ [Log Info, Log Info]\<rparr>))"
  define listing where "listing = (case lookup (fs_after e (length (executed w1))) (web_dir @ [''dist'']) of
          None \<Rightarrow> [] | Some nd \<Rightarrow> walk_node (web_dir @ [''dist'']) nd)"
  obtain n w2 where c2: "cp_dirs e token (web_dir @ [''dist'']) listing 0 w1 = (Inr n, w2)"
    using cp_dirs_total by blast
  from True c2 show ?thesis
    unfolding listing_def w1_def token_def
    by (simp add: deploy_frontend_to_supabase_def io_bind_def io_return_def log_info_def
        log_success_def put_def os_getenv_def path_exists_def Let_def os_walk_def
        run_command_run)
qed

lemma install_total: "\<exists>b w'. install_zeabur_cli e w = (Inr b, w')"
  by (auto simp add: install_zeabur_cli_def io_bind_def io_return_def log_info_def log_success_def
      log_warning_def log_error_def put_def os_getenv_def os_setenv_def Let_def run_command_run
      split: prod.splits)

lemma build_total: "\<exists>b w'. build_frontend e w = (Inr b, w')"
  by (auto simp add: build_frontend_def io_bind_def io_return_def log_info_def log_success_def
      log_error_def put_def run_command_run split: prod.splits)

lemma deploy_frontend_value:
  "fst (deploy_frontend_to_supabase e w) =
     Inr (truthy (environ w ''SUPABASE_ACCESS_TOKEN'')
           \<and> exists_node (lookup (fs_after e (length (executed w))) (web_dir @ [''dist''])))"
  using deploy_frontend_result [of e w] by auto

text \<open>
  Claim C10. In every environment and world, with \<open>ZEABUR_TOKEN\<close> set or not,
  \<open>deploy_to_zeabur\<close> returns \<open>(False, None)\<close>. So the exit code of the deployment
  script is 0 exactly when \<open>build_frontend\<close> returns true and
  \<open>deploy_frontend_to_supabase\<close> returns true, each in the world in which \<open>main\<close>
  calls it, and it is 1 otherwise.
\<close>

theorem deploy_exit_code_frontend_only:
  "(\<exists>w'. deploy_to_zeabur e w = (Inr (False, None), w'))
   \<and> (deploy_exit_code e w = 0 \<longleftrightarrow>
        fst (build_frontend e (build_world e w)) = Inr True
        \<and> fst (deploy_frontend_to_supabase e (frontend_world e w)) = Inr True)
   \<and> (deploy_exit_code e w = 0 \<or> deploy_exit_code e w = 1)"
proof -
  obtain installed w1 where
    i: "install_zeabur_cli e (w\<lparr>out := out w @ [Banner, Step 1]\<rparr>) = (Inr installed, w1)"
    using install_total by blast
  have bw: "build_world e w =
      w1\<lparr>out := out w1 @ (if installed then [] else [Log Warning]) @ [Step 2]\<rparr>"
    using i
    by (simp add: build_world_def io_bind_def put_def log_warning_def io_return_def)
  obtain built w2 where b: "build_frontend e (build_world e w) = (Inr built, w2)"
    using build_total by blast
  have kw: "backend_world e w = w2\<lparr>out := out w2 @ [Step 3, Log Info]\<rparr>"
    by (simp add: backend_world_def b io_bind_def put_def log_info_def)
  obtain w3 where z: "deploy_to_zeabur e (backend_world e w) = (Inr (False, None), w3)"
    using deploy_to_zeabur_result by blast
  have fw: "frontend_world e w = w3\<lparr>out := out w3 @ [Log Info]\<rparr>"
    by (simp add: frontend_world_def z io_bind_def put_def log_info_def)
  obtain fr w4 where f: "deploy_frontend_to_supabase e (frontend_world e w) = (Inr fr, w4)"
    using deploy_frontend_result by blast
  have m: "fst (deploy_main e w) = Inr (if built then (if fr then 0 else 1) else 1)"
    using i b [unfolded bw] z [unfolded kw] f [unfolded fw]
    by (cases installed)
       (simp_all add: deploy_main_def io_bind_def put_def log_info_def log_warning_def
          log_error_def io_return_def)
  have x: "deploy_exit_code e w = (if built then (if fr then 0 else 1) else 1)"
    by (simp add: deploy_exit_code_def m)
  show ?thesis
    using deploy_to_zeabur_result [of e w] by (simp add: x b f)
qed

theorem deploy_exit_code_frontend_only_witness:
  "truthy (environ dworld0 ''ZEABUR_TOKEN'')
   \<and> fst (deploy_to_zeabur denv0 dworld0) = Inr (False, None)
   \<and> deploy_exit_code denv0 dworld0 = 0"
proof -
  have t: "truthy (environ dworld0 ''ZEABUR_TOKEN'')"
    by (simp add: dworld0_def)
  have b: "fst (build_frontend denv0 (build_world denv0 dworld0)) = Inr True"
    by (simp add: build_frontend_def build_world_def install_zeabur_cli_def io_bind_def
        io_return_def log_info_def log_success_def log_warning_def log_error_def put_def
        run_command_run denv0_def)
  have en: "environ (frontend_world denv0 dworld0) ''SUPABASE_ACCESS_TOKEN'' = Some ''st''"
    by (simp add: frontend_world_def backend_world_def build_frontend_def build_world_def
        install_zeabur_cli_def deploy_to_zeabur_def io_bind_def
        io_return_def log_info_def log_success_def log_warning_def log_error_def put_def
        run_command_run denv0_def dworld0_def os_getenv_def path_exists_def)
  have f: "fst (deploy_frontend_to_supabase denv0 (frontend_world denv0 dworld0)) = Inr True"
    by (simp add: deploy_frontend_value en)
       (simp add: denv0_def web_dir_def at_dist_def site_def)
  from deploy_exit_code_frontend_only [of denv0 dworld0] b f t show ?thesis
    by auto
qed

end
